theory Spec2Isabelle
  imports Main
begin

section \<open>Go strings and the library functions the program calls\<close>

text \<open>
  A Go string is a sequence of bytes, so it is a \<^typ>\<open>string\<close> here (a list of
  \<^typ>\<open>char\<close>, one per byte). The program calls \<^verbatim>\<open>strings.TrimSpace\<close>,
  \<^verbatim>\<open>strings.ToLower\<close>, \<^verbatim>\<open>strings.Split\<close>, \<^verbatim>\<open>strings.Contains\<close>,
  \<^verbatim>\<open>fmt.Sprintf\<close> and \<^verbatim>\<open>encoding/json\<close>; they are modelled from the behaviour of
  the Go 1.24 standard library (the version the Dockerfile builds with), including
  what it does on bytes that are not valid UTF-8.
\<close>

subsection \<open>unicode/utf8 and unicode\<close>

definition byte :: "char \<Rightarrow> nat" where
  "byte c = of_char c"

definition RuneError :: nat where
  "RuneError = 0xFFFD"

definition RuneSelf :: nat where
  "RuneSelf = 0x80"

text \<open>The table \<^verbatim>\<open>first\<close> of unicode/utf8: length of the sequence a lead byte
  announces, and the range its second byte must lie in.\<close>

definition seqLen :: "nat \<Rightarrow> nat" where
  "seqLen s0 = (if s0 < 0xE0 then 2 else if s0 < 0xF0 then 3 else 4)"

definition acceptLo :: "nat \<Rightarrow> nat" where
  "acceptLo s0 = (if s0 = 0xE0 then 0xA0 else if s0 = 0xF0 then 0x90 else 0x80)"

definition acceptHi :: "nat \<Rightarrow> nat" where
  "acceptHi s0 = (if s0 = 0xED then 0x9F else if s0 = 0xF4 then 0x8F else 0xBF)"

text \<open>\<^verbatim>\<open>utf8.DecodeRuneInString\<close>: the first code point of \<open>s\<close> and its width in
  bytes; \<open>(RuneError, 0)\<close> on the empty string and \<open>(RuneError, 1)\<close> on an invalid
  encoding. The masks \<^verbatim>\<open>s0 & 0x1F\<close>, \<^verbatim>\<open>s1 & 0x3F\<close> and the shifts are written
  with \<open>mod\<close> and \<open>*\<close>.\<close>

definition DecodeRuneInString :: "string \<Rightarrow> nat \<times> nat" where
  "DecodeRuneInString s =
    (if s = [] then (RuneError, 0)
     else let s0 = byte (s ! 0) in
       if s0 < RuneSelf then (s0, 1)
       else if s0 < 0xC2 \<or> 0xF4 < s0 then (RuneError, 1)
       else let sz = seqLen s0 in
         if length s < sz then (RuneError, 1)
         else let s1 = byte (s ! 1) in
           if s1 < acceptLo s0 \<or> acceptHi s0 < s1 then (RuneError, 1)
           else if sz \<le> 2 then ((s0 mod 0x20) * 0x40 + s1 mod 0x40, 2)
           else let s2 = byte (s ! 2) in
             if s2 < 0x80 \<or> 0xBF < s2 then (RuneError, 1)
             else if sz \<le> 3
               then ((s0 mod 0x10) * 0x1000 + (s1 mod 0x40) * 0x40 + s2 mod 0x40, 3)
             else let s3 = byte (s ! 3) in
               if s3 < 0x80 \<or> 0xBF < s3 then (RuneError, 1)
               else ((s0 mod 8) * 0x40000 + (s1 mod 0x40) * 0x1000
                       + (s2 mod 0x40) * 0x40 + s3 mod 0x40, 4))"

text \<open>\<^verbatim>\<open>utf8.RuneStart\<close>: the byte is not a continuation byte.\<close>

definition RuneStart :: "char \<Rightarrow> bool" where
  "RuneStart b = (\<not> (0x80 \<le> byte b \<and> byte b < 0xC0))"

text \<open>The backwards scan of \<^verbatim>\<open>utf8.DecodeLastRuneInString\<close>:
  \<^verbatim>\<open>for start--; start >= lim; start-- { if RuneStart(s[start]) { break } }\<close>,
  entered here after the first decrement.\<close>

function scanBack :: "string \<Rightarrow> int \<Rightarrow> int \<Rightarrow> int" where
  "scanBack s start lim =
    (if start \<ge> lim then
       (if RuneStart (s ! nat start) then start else scanBack s (start - 1) lim)
     else start)"
  by pat_completeness auto
termination
  by (relation "measure (\<lambda>(s, start, lim). nat (start - lim + 1))") auto

declare scanBack.simps [simp del]

definition DecodeLastRuneInString :: "string \<Rightarrow> nat \<times> nat" where
  "DecodeLastRuneInString s =
    (let end = int (length s) in
     if end = 0 then (RuneError, 0)
     else let r = byte (s ! nat (end - 1)) in
       if r < RuneSelf then (r, 1)
       else let lim = max 0 (end - 4);
                start = max 0 (scanBack s (end - 2) lim);
                (r, size) = DecodeRuneInString (drop (nat start) s) in
         if start + int size \<noteq> end then (RuneError, 1) else (r, size))"

text \<open>\<^verbatim>\<open>unicode.IsSpace\<close>: the Latin-1 spaces and the White\_Space property.\<close>

definition IsSpace :: "nat \<Rightarrow> bool" where
  "IsSpace r =
    (if r \<le> 0xFF then r \<in> {0x09, 0x0A, 0x0B, 0x0C, 0x0D, 0x20, 0x85, 0xA0}
     else r = 0x1680 \<or> (0x2000 \<le> r \<and> r \<le> 0x200A) \<or> r = 0x2028 \<or> r = 0x2029
        \<or> r = 0x202F \<or> r = 0x205F \<or> r = 0x3000)"

text \<open>\<^verbatim>\<open>utf8.AppendRune\<close>: the UTF-8 encoding of a code point; surrogates and
  values beyond U+10FFFF are encoded as U+FFFD.\<close>

definition EncodeRune :: "nat \<Rightarrow> string" where
  "EncodeRune r =
    (if r < 0x80 then [char_of r]
     else if r < 0x800 then [char_of (0xC0 + r div 0x40), char_of (0x80 + r mod 0x40)]
     else if (0xD800 \<le> r \<and> r \<le> 0xDFFF) \<or> 0x10FFFF < r
       then [CHR 0xEF, CHR 0xBF, CHR 0xBD]
     else if r < 0x10000
       then [char_of (0xE0 + r div 0x1000), char_of (0x80 + (r div 0x40) mod 0x40),
             char_of (0x80 + r mod 0x40)]
     else [char_of (0xF0 + r div 0x40000), char_of (0x80 + (r div 0x1000) mod 0x40),
           char_of (0x80 + (r div 0x40) mod 0x40), char_of (0x80 + r mod 0x40)])"

subsection \<open>strings\<close>

text \<open>The code points of a string in the order \<^verbatim>\<open>for _, r := range s\<close> yields
  them: each invalid byte is one U+FFFD.\<close>

function runes :: "string \<Rightarrow> nat list" where
  "runes s =
    (if s = [] then []
     else let (r, size) = DecodeRuneInString s in r # runes (drop size s))"
  by pat_completeness auto
termination
proof (relation "measure length")
  show "wf (measure length)" by simp
next
  fix s :: string and x r size
  assume "s \<noteq> []" and "x = DecodeRuneInString s" and "(r, size) = x"
  then have "0 < size"
    by (auto simp: DecodeRuneInString_def Let_def split: if_splits)
  with \<open>s \<noteq> []\<close> show "(drop size s, s) \<in> measure length" by simp
qed

declare runes.simps [simp del]

text \<open>\<^verbatim>\<open>indexFunc(s, f, truth)\<close>: the byte index of the first code point \<open>r\<close> with
  \<open>f r = truth\<close>, \<open>None\<close> for the library's \<open>-1\<close>. The extra argument is the
  index the \<^verbatim>\<open>range\<close> loop has reached.\<close>

function indexFunc :: "string \<Rightarrow> (nat \<Rightarrow> bool) \<Rightarrow> bool \<Rightarrow> nat \<Rightarrow> nat option" where
  "indexFunc s f truth i =
    (if i < length s then
       (let (r, size) = DecodeRuneInString (drop i s) in
        if f r = truth then Some i else indexFunc s f truth (i + size))
     else None)"
  by pat_completeness auto
termination
proof (relation "measure (\<lambda>(s, f, truth, i). length s - i)")
  show "wf (measure (\<lambda>(s, f, truth, i). length s - i))" by simp
next
  fix s :: string and f :: "nat \<Rightarrow> bool" and truth :: bool and i :: nat and x r size
  assume "i < length s" and "x = DecodeRuneInString (drop i s)" and "(r, size) = x"
  then have "0 < size"
    by (auto simp: DecodeRuneInString_def Let_def split: if_splits)
  with \<open>i < length s\<close>
  show "((s, f, truth, i + size), (s, f, truth, i)) \<in> measure (\<lambda>(s, f, truth, i). length s - i)"
    by simp
qed

declare indexFunc.simps [simp del]

text \<open>\<^verbatim>\<open>lastIndexFunc(s, f, truth)\<close>: the loop
  \<^verbatim>\<open>for i := len(s); i > 0; { r, size := DecodeLastRuneInString(s[0:i]); i -= size; ... }\<close>.
  The loop variable \<open>i\<close> is the length of the prefix \<open>s[0:i]\<close> still to be
  scanned; the function is called on that prefix.\<close>

function lastIndexFunc :: "string \<Rightarrow> (nat \<Rightarrow> bool) \<Rightarrow> bool \<Rightarrow> nat option" where
  "lastIndexFunc s f truth =
    (if 0 < length s then
       (let (r, size) = DecodeLastRuneInString s; i = length s - size in
        if f r = truth then Some i else lastIndexFunc (take i s) f truth)
     else None)"
  by pat_completeness auto
termination
proof (relation "measure (\<lambda>(s, f, truth). length s)")
  show "wf (measure (\<lambda>(s, f, truth). length s))" by simp
next
  fix s :: string and f :: "nat \<Rightarrow> bool" and truth :: bool and x r size i
  assume ne: "0 < length s" and x: "x = DecodeLastRuneInString s" and rs: "(r, size) = x"
    and i: "i = length s - size"
  let ?e = "int (length s)"
  let ?st = "max 0 (scanBack s (?e - 2) (max 0 (?e - 4)))"
  have "scanBack t a b \<le> a" for t a b
    by (induction t a b rule: scanBack.induct) (subst scanBack.simps, auto)
  from this [of s "?e - 2" "max 0 (?e - 4)"] ne have "?st < ?e" by auto
  then have "nat ?st < length s" by linarith
  then have "drop (nat ?st) s \<noteq> []" by simp
  moreover have "0 < snd (DecodeRuneInString t)" if "t \<noteq> []" for t
    using that by (simp add: DecodeRuneInString_def Let_def)
  ultimately have "0 < snd (DecodeRuneInString (drop (nat ?st) s))" by blast
  with x rs ne have "0 < size"
    by (auto simp: DecodeLastRuneInString_def Let_def split: prod.splits if_splits)
  with ne i show "((take i s, f, truth), (s, f, truth)) \<in> measure (\<lambda>(s, f, truth). length s)"
    by simp
qed

declare lastIndexFunc.simps [simp del]

text \<open>\<^verbatim>\<open>strings.TrimLeftFunc\<close>, \<^verbatim>\<open>strings.TrimRightFunc\<close> and \<^verbatim>\<open>strings.TrimFunc\<close>.
  In \<^verbatim>\<open>TrimRightFunc\<close> the library steps over the last code point to keep by
  decoding it forwards again when it is not ASCII.\<close>

definition TrimLeftFunc :: "string \<Rightarrow> (nat \<Rightarrow> bool) \<Rightarrow> string" where
  "TrimLeftFunc s f =
    (case indexFunc s f False 0 of None \<Rightarrow> [] | Some i \<Rightarrow> drop i s)"

definition TrimRightFunc :: "string \<Rightarrow> (nat \<Rightarrow> bool) \<Rightarrow> string" where
  "TrimRightFunc s f =
    (case lastIndexFunc s f False of
       None \<Rightarrow> take 0 s
     | Some i \<Rightarrow>
         if byte (s ! i) \<ge> RuneSelf
         then take (i + snd (DecodeRuneInString (drop i s))) s
         else take (i + 1) s)"

definition TrimFunc :: "string \<Rightarrow> (nat \<Rightarrow> bool) \<Rightarrow> string" where
  "TrimFunc s f = TrimRightFunc (TrimLeftFunc s f) f"

text \<open>\<^verbatim>\<open>strings.TrimSpace\<close>: \<open>s\<close> without its leading and trailing white space, as
  defined by Unicode. The library first skips ASCII spaces byte by byte at both ends and
  falls back to \<^verbatim>\<open>TrimFunc(s, unicode.IsSpace)\<close> at the first byte that is not ASCII,
  which returns the same slice as calling \<^verbatim>\<open>TrimFunc\<close> at once.\<close>

definition TrimSpace :: "string \<Rightarrow> string" where
  "TrimSpace s = TrimFunc s IsSpace"

text \<open>\<^verbatim>\<open>strings.Map\<close>: every code point is replaced by the encoding of its image (an
  invalid byte is read as U+FFFD). \<^verbatim>\<open>strings.ToLower\<close>: ASCII strings are
  lowered byte by byte, any other string through \<^verbatim>\<open>unicode.ToLower\<close>, whose case
  table is the parameter \<open>lower\<close>.\<close>

definition Map_runes :: "(nat \<Rightarrow> nat) \<Rightarrow> string \<Rightarrow> string" where
  "Map_runes mapping s = concat (map (\<lambda>r. EncodeRune (mapping r)) (runes s))"

definition ToLower :: "(nat \<Rightarrow> nat) \<Rightarrow> string \<Rightarrow> string" where
  "ToLower lower s =
    (let isASCII = (\<forall>c \<in> set s. byte c < RuneSelf);
         hasUpper = (\<exists>c \<in> set s. 0x41 \<le> byte c \<and> byte c \<le> 0x5A) in
     if isASCII then
       (if \<not> hasUpper then s
        else map (\<lambda>c. if 0x41 \<le> byte c \<and> byte c \<le> 0x5A then char_of (byte c + 0x20) else c) s)
     else Map_runes lower s)"

text \<open>\<^verbatim>\<open>strings.HasPrefix\<close>, \<^verbatim>\<open>strings.Contains\<close> and \<^verbatim>\<open>strings.Split\<close> (for a
  separator that is not empty: the pieces between all its occurrences, scanning from the
  left; for the empty separator, the UTF-8 sequences of \<open>s\<close>).\<close>

definition HasPrefix :: "string \<Rightarrow> string \<Rightarrow> bool" where
  "HasPrefix s p = (length s \<ge> length p \<and> take (length p) s = p)"

fun Contains :: "string \<Rightarrow> string \<Rightarrow> bool" where
  "Contains [] substr = (substr = [])"
| "Contains (c # s) substr = (HasPrefix (c # s) substr \<or> Contains s substr)"

function explode :: "string \<Rightarrow> string list" where
  "explode s =
    (if s = [] then []
     else let size = snd (DecodeRuneInString s) in take size s # explode (drop size s))"
  by pat_completeness auto
termination
proof (relation "measure length")
  show "wf (measure length)" by simp
next
  fix s :: string and size
  assume "s \<noteq> []" and "size = snd (DecodeRuneInString s)"
  then have "0 < size"
    by (auto simp: DecodeRuneInString_def Let_def split: if_splits)
  with \<open>s \<noteq> []\<close> show "(drop size s, s) \<in> measure length" by simp
qed

declare explode.simps [simp del]

function genSplit :: "string \<Rightarrow> string \<Rightarrow> string \<Rightarrow> string list" where
  "genSplit piece s sep =
    (if s = [] then [piece]
     else if HasPrefix s sep \<and> sep \<noteq> [] then piece # genSplit [] (drop (length sep) s) sep
     else genSplit (piece @ [hd s]) (tl s) sep)"
  by pat_completeness auto
termination
  by (relation "measure (\<lambda>(piece, s, sep). length s)") auto

declare genSplit.simps [simp del]

definition Split :: "string \<Rightarrow> string \<Rightarrow> string list" where
  "Split s sep = (if sep = [] then explode s else genSplit [] s sep)"

subsection \<open>fmt and strconv\<close>

text \<open>\<^verbatim>\<open>strconv.Itoa\<close>, which is what the verb \<^verbatim>\<open>%d\<close> prints for an \<^verbatim>\<open>int\<close>.\<close>

function showNat :: "nat \<Rightarrow> string" where
  "showNat n =
    (if n < 10 then [char_of (0x30 + n)]
     else showNat (n div 10) @ [char_of (0x30 + n mod 10)])"
  by pat_completeness auto
termination
  by (relation "measure id") auto

declare showNat.simps [simp del]

definition Itoa :: "int \<Rightarrow> string" where
  "Itoa n = (if n < 0 then CHR ''-'' # showNat (nat (- n)) else showNat (nat n))"

text \<open>\<^verbatim>\<open>fmt.Sprintf\<close>, for what the program's format strings use: the verb
  \<^verbatim>\<open>%s\<close> on a string (or on an error, which prints its text) and the verb
  \<^verbatim>\<open>%d\<close> on an int, with one operand per verb. Any other use of \<^verbatim>\<open>%\<close> does
  not occur in the program; the model copies it unchanged.\<close>

datatype arg = Str string | Num int

fun Sprintf :: "string \<Rightarrow> arg list \<Rightarrow> string" where
  "Sprintf [] args = []"
| "Sprintf [c] args = [c]"
| "Sprintf (c # v # fmt) args =
    (if c = CHR ''%'' \<and> v = CHR ''s'' then
       (case args of Str s # rest \<Rightarrow> s @ Sprintf fmt rest | _ \<Rightarrow> c # v # Sprintf fmt args)
     else if c = CHR ''%'' \<and> v = CHR ''d'' then
       (case args of Num n # rest \<Rightarrow> Itoa n @ Sprintf fmt rest | _ \<Rightarrow> c # v # Sprintf fmt args)
     else c # Sprintf (v # fmt) args)"

subsection \<open>encoding/json\<close>

definition hex :: "nat \<Rightarrow> char" where
  "hex n = ''0123456789abcdef'' ! n"

text \<open>\<^verbatim>\<open>htmlSafeSet\<close>: the ASCII bytes that a JSON string holds unescaped when HTML
  escaping is on (the default of \<^verbatim>\<open>Marshal\<close> and of \<^verbatim>\<open>Encoder\<close>).\<close>

definition htmlSafeSet :: "nat \<Rightarrow> bool" where
  "htmlSafeSet b = (0x20 \<le> b \<and> b < 0x80 \<and> b \<notin> {0x22, 0x26, 0x3C, 0x3E, 0x5C})"

definition escapeByte :: "char \<Rightarrow> string" where
  "escapeByte c =
    (let b = byte c in
     if b = 0x5C \<or> b = 0x22 then [CHR 0x5C, c]
     else if b = 0x08 then [CHR 0x5C, CHR ''b'']
     else if b = 0x0C then [CHR 0x5C, CHR ''f'']
     else if b = 0x0A then [CHR 0x5C, CHR ''n'']
     else if b = 0x0D then [CHR 0x5C, CHR ''r'']
     else if b = 0x09 then [CHR 0x5C, CHR ''t'']
     else [CHR 0x5C, CHR ''u'', CHR ''0'', CHR ''0'', hex (b div 16), hex (b mod 16)])"

text \<open>The body of \<^verbatim>\<open>appendString\<close>: the text between the quotes of a JSON
  string. An invalid byte becomes the six characters of the escape of U+FFFD; U+2028 and U+2029 are escaped.\<close>

function escapeString :: "string \<Rightarrow> string" where
  "escapeString s =
    (if s = [] then []
     else if byte (hd s) < RuneSelf then
       (if htmlSafeSet (byte (hd s)) then hd s # escapeString (tl s)
        else escapeByte (hd s) @ escapeString (tl s))
     else let (c, size) = DecodeRuneInString (take 4 s) in
       if c = RuneError \<and> size = 1
         then [CHR 0x5C, CHR ''u'', CHR ''f'', CHR ''f'', CHR ''f'', CHR ''d'']
              @ escapeString (drop size s)
       else if c = 0x2028 \<or> c = 0x2029
         then [CHR 0x5C, CHR ''u'', CHR ''2'', CHR ''0'', CHR ''2'', hex (c mod 16)]
              @ escapeString (drop size s)
       else take size s @ escapeString (drop size s))"
  by pat_completeness auto
termination
proof (relation "measure length")
  show "wf (measure length)" by simp
next
  fix s :: string
  assume "s \<noteq> []"
  then show "(tl s, s) \<in> measure length" by (cases s) auto
next
  fix s :: string
  assume "s \<noteq> []"
  then show "(tl s, s) \<in> measure length" by (cases s) auto
next
  fix s :: string and x c size
  assume ne: "s \<noteq> []" and "x = DecodeRuneInString (take 4 s)" and "(c, size) = x"
  then have "0 < size"
    by (auto simp: DecodeRuneInString_def Let_def split: if_splits)
  with ne show "(drop size s, s) \<in> measure length" by simp
next
  fix s :: string and x c size
  assume ne: "s \<noteq> []" and "x = DecodeRuneInString (take 4 s)" and "(c, size) = x"
  then have "0 < size"
    by (auto simp: DecodeRuneInString_def Let_def split: if_splits)
  with ne show "(drop size s, s) \<in> measure length" by simp
next
  fix s :: string and x c size
  assume ne: "s \<noteq> []" and "x = DecodeRuneInString (take 4 s)" and "(c, size) = x"
  then have "0 < size"
    by (auto simp: DecodeRuneInString_def Let_def split: if_splits)
  with ne show "(drop size s, s) \<in> measure length" by simp
qed

declare escapeString.simps [simp del]

definition appendString :: "string \<Rightarrow> string" where
  "appendString s = [CHR 0x22] @ escapeString s @ [CHR 0x22]"

fun join :: "string list \<Rightarrow> string \<Rightarrow> string" where
  "join [] sep = []"
| "join [x] sep = x"
| "join (x # y # xs) sep = x @ sep @ join (y # xs) sep"

text \<open>\<^verbatim>\<open>json.NewEncoder(w).Encode(m)\<close> for a \<^verbatim>\<open>map[string]string\<close>, given as its
  entries in the order of their keys: the compact object and a newline.\<close>

definition Encode_map :: "(string \<times> string) list \<Rightarrow> string" where
  "Encode_map m =
    ''{'' @ join (map (\<lambda>(k, v). appendString k @ '':'' @ appendString v) m) '','' @ ''}''
    @ [CHR 0x0A]"

text \<open>\<^verbatim>\<open>json.Valid\<close>: whether the bytes are one JSON text (RFC 8259). The model
  follows the scanner of encoding/json: one step function per state, and the stack
  \<^verbatim>\<open>parseState\<close> of the objects and arrays that are open. The literals
  \<^verbatim>\<open>true\<close>, \<^verbatim>\<open>false\<close> and \<^verbatim>\<open>null\<close> share one state that holds the characters
  still to come, and the four states of a Unicode escape share one that counts its
  hexadecimal digits.\<close>

datatype parseState = parseObjectKey | parseObjectValue | parseArrayValue

datatype scanStep =
    stateBeginValue | stateBeginValueOrEmpty | stateBeginStringOrEmpty | stateBeginString
  | stateEndValue | stateEndTop
  | stateInString | stateInStringEsc | stateInStringEscU nat
  | stateNeg | state1 | state0 | stateDot | stateDot0 | stateE | stateESign | stateE0
  | stateLiteral string
  | stateError

type_synonym scanner = "scanStep \<times> parseState list"

definition isSpace_json :: "char \<Rightarrow> bool" where
  "isSpace_json c = (byte c \<le> 0x20 \<and> (byte c = 0x20 \<or> byte c = 0x09 \<or> byte c = 0x0D \<or> byte c = 0x0A))"

definition isDigit :: "char \<Rightarrow> bool" where
  "isDigit c = (0x30 \<le> byte c \<and> byte c \<le> 0x39)"

definition isHex :: "char \<Rightarrow> bool" where
  "isHex c = (isDigit c \<or> (0x61 \<le> byte c \<and> byte c \<le> 0x66) \<or> (0x41 \<le> byte c \<and> byte c \<le> 0x46))"

definition endValue :: "parseState list \<Rightarrow> char \<Rightarrow> scanner" where
  "endValue ps c =
    (case ps of
       [] \<Rightarrow> (if isSpace_json c then (stateEndTop, []) else (stateError, []))
     | p # rest \<Rightarrow>
         if isSpace_json c then (stateEndValue, ps)
         else (case p of
            parseObjectKey \<Rightarrow>
              if c = CHR '':'' then (stateBeginValue, parseObjectValue # rest)
              else (stateError, ps)
          | parseObjectValue \<Rightarrow>
              if c = CHR '','' then (stateBeginString, parseObjectKey # rest)
              else if c = CHR ''}'' then
                (if rest = [] then (stateEndTop, rest) else (stateEndValue, rest))
              else (stateError, ps)
          | parseArrayValue \<Rightarrow>
              if c = CHR '','' then (stateBeginValue, ps)
              else if c = CHR '']'' then
                (if rest = [] then (stateEndTop, rest) else (stateEndValue, rest))
              else (stateError, ps)))"

definition beginValue :: "parseState list \<Rightarrow> char \<Rightarrow> scanner" where
  "beginValue ps c =
    (if isSpace_json c then (stateBeginValue, ps)
     else if c = CHR ''{'' then (stateBeginStringOrEmpty, parseObjectKey # ps)
     else if c = CHR ''['' then (stateBeginValueOrEmpty, parseArrayValue # ps)
     else if c = CHR 0x22 then (stateInString, ps)
     else if c = CHR ''-'' then (stateNeg, ps)
     else if c = CHR ''0'' then (state0, ps)
     else if c = CHR ''t'' then (stateLiteral ''rue'', ps)
     else if c = CHR ''f'' then (stateLiteral ''alse'', ps)
     else if c = CHR ''n'' then (stateLiteral ''ull'', ps)
     else if 0x31 \<le> byte c \<and> byte c \<le> 0x39 then (state1, ps)
     else (stateError, ps))"

definition beginString :: "parseState list \<Rightarrow> char \<Rightarrow> scanner" where
  "beginString ps c =
    (if isSpace_json c then (stateBeginString, ps)
     else if c = CHR 0x22 then (stateInString, ps)
     else (stateError, ps))"

definition scanStep0 :: "parseState list \<Rightarrow> char \<Rightarrow> scanner" where
  "scanStep0 ps c =
    (if c = CHR ''.'' then (stateDot, ps)
     else if c = CHR ''e'' \<or> c = CHR ''E'' then (stateE, ps)
     else endValue ps c)"

definition scanESign :: "parseState list \<Rightarrow> char \<Rightarrow> scanner" where
  "scanESign ps c = (if isDigit c then (stateE0, ps) else (stateError, ps))"

definition scanStep :: "scanner \<Rightarrow> char \<Rightarrow> scanner" where
  "scanStep sc c =
    (let ps = snd sc in
     case fst sc of
       stateBeginValue \<Rightarrow> beginValue ps c
     | stateBeginValueOrEmpty \<Rightarrow>
         if isSpace_json c then (stateBeginValueOrEmpty, ps)
         else if c = CHR '']'' then endValue ps c
         else beginValue ps c
     | stateBeginStringOrEmpty \<Rightarrow>
         if isSpace_json c then (stateBeginStringOrEmpty, ps)
         else if c = CHR ''}'' then endValue (parseObjectValue # tl ps) c
         else beginString ps c
     | stateBeginString \<Rightarrow> beginString ps c
     | stateEndValue \<Rightarrow> endValue ps c
     | stateEndTop \<Rightarrow> (if isSpace_json c then (stateEndTop, ps) else (stateError, ps))
     | stateInString \<Rightarrow>
         if c = CHR 0x22 then (stateEndValue, ps)
         else if c = CHR 0x5C then (stateInStringEsc, ps)
         else if byte c < 0x20 then (stateError, ps)
         else (stateInString, ps)
     | stateInStringEsc \<Rightarrow>
         if c = CHR ''b'' \<or> c = CHR ''f'' \<or> c = CHR ''n'' \<or> c = CHR ''r'' \<or> c = CHR ''t''
            \<or> c = CHR 0x5C \<or> c = CHR ''/'' \<or> c = CHR 0x22
         then (stateInString, ps)
         else if c = CHR ''u'' then (stateInStringEscU 4, ps)
         else (stateError, ps)
     | stateInStringEscU n \<Rightarrow>
         if isHex c then (if n \<le> 1 then (stateInString, ps) else (stateInStringEscU (n - 1), ps))
         else (stateError, ps)
     | stateNeg \<Rightarrow>
         if c = CHR ''0'' then (state0, ps)
         else if 0x31 \<le> byte c \<and> byte c \<le> 0x39 then (state1, ps)
         else (stateError, ps)
     | state1 \<Rightarrow> (if isDigit c then (state1, ps) else scanStep0 ps c)
     | state0 \<Rightarrow> scanStep0 ps c
     | stateDot \<Rightarrow> (if isDigit c then (stateDot0, ps) else (stateError, ps))
     | stateDot0 \<Rightarrow>
         if isDigit c then (stateDot0, ps)
         else if c = CHR ''e'' \<or> c = CHR ''E'' then (stateE, ps)
         else endValue ps c
     | stateE \<Rightarrow>
         if c = CHR ''+'' \<or> c = CHR ''-'' then (stateESign, ps) else scanESign ps c
     | stateESign \<Rightarrow> scanESign ps c
     | stateE0 \<Rightarrow> (if isDigit c then (stateE0, ps) else endValue ps c)
     | stateLiteral rest \<Rightarrow>
         (case rest of
            [] \<Rightarrow> (stateError, ps)
          | x # xs \<Rightarrow>
              if c = x then (if xs = [] then (stateEndValue, ps) else (stateLiteral xs, ps))
              else (stateError, ps))
     | stateError \<Rightarrow> (stateError, ps))"

text \<open>\<^verbatim>\<open>checkValid\<close> feeds every byte to the scanner; at the end of the input the
  scanner is given one space, and the text is valid when that leaves it after a
  complete top-level value.\<close>

definition Valid :: "string \<Rightarrow> bool" where
  "Valid data = (fst (scanStep (foldl scanStep (stateBeginValue, []) data) CHR '' '') = stateEndTop)"

section \<open>The program: postcode\_scraper.go\<close>

record PostcodeResult =
  Postcode :: string
  Suburb :: string
  State :: string

definition BASE_URL :: string where
  \<open>BASE_URL = ''https://auspost.com.au/postcode/''\<close>

definition postcodeTableSelector :: string where
  \<open>postcodeTableSelector = ''table.fn_tablePostcodeList''\<close>

definition StatusOK :: int where
  "StatusOK = 200"

definition StatusBadRequest :: int where
  "StatusBadRequest = 400"

definition StatusInternalServerError :: int where
  "StatusInternalServerError = 500"

text \<open>\<^verbatim>\<open>json.MarshalIndent(resultsList, "", "    ")\<close> on a \<^verbatim>\<open>[]PostcodeResult\<close>: the
  fields in the order of their declaration under the names of their tags, every value on
  its own line, and \<^verbatim>\<open>[]\<close> for the empty slice. Marshalling strings does not fail,
  so the result is always \<open>Inr\<close>.\<close>

definition marshalResult :: "PostcodeResult \<Rightarrow> string \<Rightarrow> string \<Rightarrow> string" where
  \<open>marshalResult r pfx indent =
    ''{'' @ [CHR 0x0A] @ pfx @ indent @ indent
      @ appendString ''postcode'' @ '': '' @ appendString (Postcode r)
      @ '','' @ [CHR 0x0A] @ pfx @ indent @ indent
      @ appendString ''suburb'' @ '': '' @ appendString (Suburb r)
      @ '','' @ [CHR 0x0A] @ pfx @ indent @ indent
      @ appendString ''state'' @ '': '' @ appendString (State r)
      @ [CHR 0x0A] @ pfx @ indent @ ''}''\<close>

definition MarshalIndent :: "PostcodeResult list \<Rightarrow> string \<Rightarrow> string \<Rightarrow> string + string" where
  \<open>MarshalIndent v pfx indent =
    Inr (if v = [] then ''[]''
         else ''['' @ [CHR 0x0A] @ pfx @ indent
           @ join (map (\<lambda>r. marshalResult r pfx indent) v)
                  ('','' @ [CHR 0x0A] @ pfx @ indent)
           @ [CHR 0x0A] @ pfx @ '']'')\<close>

subsection \<open>The world outside\<close>

text \<open>
  A table row is the list of the texts of the \<^verbatim>\<open>td\<close> elements that
  \<^verbatim>\<open>row.Find("td")\<close> selects, in document order: \<^verbatim>\<open>cols.Length()\<close> is its length
  and \<^verbatim>\<open>cols.Eq(k).Text()\<close> its \<open>k\<close>-th element.

  The body of a response is what \<^verbatim>\<open>goquery.NewDocumentFromReader(resp.Body)\<close> makes
  of it: the text of an error, or the rows that
  \<^verbatim>\<open>doc.Find(postcodeTableSelector + " tr")\<close> selects, in document order.
\<close>

type_synonym row = "string list"

record response =
  StatusCode :: int
  Body :: "string + row list"

text \<open>The network and the Unicode case table: whether \<^verbatim>\<open>http.NewRequest("GET", url, nil)\<close>
  fails (with the text of its error), and what \<^verbatim>\<open>client.Do(req)\<close> returns for the
  URL.\<close>

record world =
  unicode_ToLower :: "nat \<Rightarrow> nat"
  http_NewRequest :: "string \<Rightarrow> string option"
  client_Do :: "string \<Rightarrow> string + response"

text \<open>What the program does to the outside, in order: \<^verbatim>\<open>time.Sleep\<close> (in
  milliseconds), \<^verbatim>\<open>log.Printf\<close> (the message, without the time stamp of the logger)
  and the GET request of \<^verbatim>\<open>client.Do\<close>.\<close>

datatype event = Sleep nat | Log string | HttpGet string

subsection \<open>searchPostcodes\<close>

text \<open>The two variables the callback of \<^verbatim>\<open>Each\<close> closes over.\<close>

record scrape =
  resultsList :: "PostcodeResult list"
  dataContainerFound :: bool

text \<open>\<^verbatim>\<open>(*Selection).Each\<close>: the callback on every selected element with its index,
  counted from the second argument.\<close>

fun Each :: "row list \<Rightarrow> nat \<Rightarrow> (nat \<Rightarrow> row \<Rightarrow> 's \<Rightarrow> 's) \<Rightarrow> 's \<Rightarrow> 's" where
  "Each [] i f st = st"
| "Each (row # rows) i f st = Each rows (i + 1) f (f i row st)"

text \<open>The callback: the body of \<^verbatim>\<open>func(i int, row *goquery.Selection)\<close>.\<close>

definition rowFunc :: "nat \<Rightarrow> row \<Rightarrow> scrape \<Rightarrow> scrape" where
  \<open>rowFunc i cols st0 =
    (let st = st0\<lparr>dataContainerFound := True\<rparr> in
     if i = 0 then st
     else if length cols \<ge> 2 then
       (let postcodeText = TrimSpace (cols ! 0);
            fullSuburbText = TrimSpace (cols ! 1);
            parts = Split fullSuburbText '','';
            suburb = (if length parts \<ge> 1 then TrimSpace (parts ! 0) else []);
            state = (if length parts \<ge> 2 then TrimSpace (parts ! 1) else []) in
        if postcodeText \<noteq> [] \<and> suburb \<noteq> [] then
          st\<lparr>resultsList := resultsList st
               @ [\<lparr>Postcode = postcodeText, Suburb = suburb, State = state\<rparr>]\<rparr>
        else st)
     else st)\<close>

definition targetUrl :: "world \<Rightarrow> string \<Rightarrow> string" where
  \<open>targetUrl env keyword =
    Sprintf ''%s%s'' [Str BASE_URL, Str (ToLower (unicode_ToLower env) (TrimSpace keyword))]\<close>

text \<open>\<^verbatim>\<open>searchPostcodes\<close> returns its JSON string; the model returns the events
  before it as well.\<close>

definition searchPostcodes :: "world \<Rightarrow> string \<Rightarrow> event list \<times> string" where
  \<open>searchPostcodes env keyword =
    (if keyword = [] then ([], ''{"error": "Keyword cannot be empty."}'')
     else
       let url = targetUrl env keyword;
           log1 = [Log (Sprintf ''Scraping target: %s'' [Str url])] in
       case http_NewRequest env url of
         Some err \<Rightarrow>
           (log1, Sprintf ''{"error": "Failed to create request: %s"}'' [Str err])
       | None \<Rightarrow>
          (case client_Do env url of
             Inl err \<Rightarrow>
               (log1 @ [HttpGet url],
                Sprintf ''{"error": "Failed to fetch the page: %s"}'' [Str err])
           | Inr resp \<Rightarrow>
               if StatusCode resp \<noteq> StatusOK then
                 (log1 @ [HttpGet url],
                  Sprintf ''{"error": "Received non-OK HTTP status: %d"}''
                    [Num (StatusCode resp)])
               else
                 (case Body resp of
                    Inl err \<Rightarrow>
                      (log1 @ [HttpGet url],
                       Sprintf ''{"error": "Failed to parse HTML: %s"}'' [Str err])
                  | Inr rows \<Rightarrow>
                      let st = Each rows 0 rowFunc
                                 \<lparr>resultsList = [], dataContainerFound = False\<rparr>;
                          log2 = (if \<not> dataContainerFound st then
                                    [Log (Sprintf
                                      ''Warning: Selector '%s' did not find any elements for keyword '%s'.''
                                      [Str postcodeTableSelector, Str keyword])]
                                  else []) in
                      if length (resultsList st) = 0 then
                        (log1 @ [HttpGet url] @ log2,
                         Sprintf
                           ''{"message": "No postcodes found for keyword '%s'. Please verify the CSS selectors."}''
                           [Str keyword])
                      else
                        (case MarshalIndent (resultsList st) [] ''    '' of
                           Inl err \<Rightarrow>
                             (log1 @ [HttpGet url] @ log2,
                              Sprintf ''{"error": "Failed to marshal JSON: %s"}'' [Str err])
                         | Inr jsonOutput \<Rightarrow> (log1 @ [HttpGet url] @ log2, jsonOutput)))))\<close>

subsection \<open>postcodeHandler\<close>

text \<open>\<^verbatim>\<open>url.Values\<close> and its \<^verbatim>\<open>Get\<close>: the first value of the key, or the empty
  string.\<close>

type_synonym Values = "string \<rightharpoonup> string list"

definition Get :: "Values \<Rightarrow> string \<Rightarrow> string" where
  "Get v key = (case v key of None \<Rightarrow> [] | Some vs \<Rightarrow> (if length vs = 0 then [] else vs ! 0))"

text \<open>\<^verbatim>\<open>http.ResponseWriter\<close>: the header map, the status (set by the first
  \<^verbatim>\<open>WriteHeader\<close>; \<^verbatim>\<open>Write\<close> sends 200 when none was sent) and the body written.\<close>

record ResponseWriter =
  Header :: "string \<rightharpoonup> string"
  wroteHeader :: bool
  status :: int
  body :: string

definition newResponseWriter :: ResponseWriter where
  "newResponseWriter = \<lparr>Header = Map.empty, wroteHeader = False, status = 0, body = []\<rparr>"

definition Header_Set :: "string \<Rightarrow> string \<Rightarrow> ResponseWriter \<Rightarrow> ResponseWriter" where
  "Header_Set key val w = w\<lparr>Header := (Header w)(key \<mapsto> val)\<rparr>"

definition WriteHeader :: "int \<Rightarrow> ResponseWriter \<Rightarrow> ResponseWriter" where
  "WriteHeader code w = (if wroteHeader w then w else w\<lparr>wroteHeader := True, status := code\<rparr>)"

definition Write :: "string \<Rightarrow> ResponseWriter \<Rightarrow> ResponseWriter" where
  "Write b w0 =
    (let w = (if \<not> wroteHeader w0 then WriteHeader StatusOK w0 else w0) in
     w\<lparr>body := body w @ b\<rparr>)"

text \<open>The handler on the query of the request URL (\<^verbatim>\<open>r.URL.Query()\<close>).\<close>

definition postcodeHandler ::
  "world \<Rightarrow> ResponseWriter \<Rightarrow> Values \<Rightarrow> event list \<times> ResponseWriter" where
  \<open>postcodeHandler env w0 query =
    (let w = Header_Set ''Content-Type'' ''application/json'' w0;
         keyword = Get query ''keyword'' in
     if keyword = [] then
       ([], Write (Encode_map
              [(''error'',
                ''Missing 'keyword' parameter in the query string. Example: /search?keyword=sydney'')])
              (WriteHeader StatusBadRequest w))
     else
       let (events, jsonOutput) = searchPostcodes env keyword;
           w' = (if Contains jsonOutput ''"error"'' \<or> Contains jsonOutput ''"message"''
                 then WriteHeader StatusInternalServerError w else w) in
       (Sleep 500 # events, Write jsonOutput w'))\<close>

subsection \<open>Worlds for the examples\<close>

text \<open>A world in which every request is built and answered by the same response, with
  the identity as case table (the keywords of the examples are ASCII); and the response
  of a page whose table has the given rows.\<close>

definition exampleWorld :: "response \<Rightarrow> world" where
  "exampleWorld resp =
    \<lparr>unicode_ToLower = (\<lambda>r. r), http_NewRequest = (\<lambda>url. None), client_Do = (\<lambda>url. Inr resp)\<rparr>"

definition examplePage :: "row list \<Rightarrow> response" where
  "examplePage rows = \<lparr>StatusCode = 200, Body = Inr rows\<rparr>"

section \<open>Properties\<close>

subsection \<open>Library facts\<close>

lemma DecodeRuneInString_size_pos: "s \<noteq> [] \<Longrightarrow> 0 < snd (DecodeRuneInString s)"
  by (simp add: DecodeRuneInString_def Let_def)

lemma DecodeRuneInString_size_cases:
  "s \<noteq> [] \<Longrightarrow> snd (DecodeRuneInString s) = 1 \<or>
     (snd (DecodeRuneInString s) = seqLen (byte (s ! 0)) \<and> seqLen (byte (s ! 0)) \<le> length s)"
  unfolding DecodeRuneInString_def Let_def
  by (auto simp: seqLen_def)

lemma DecodeRuneInString_size_le: "snd (DecodeRuneInString s) \<le> length s"
proof (cases s)
  case Nil then show ?thesis by (simp add: DecodeRuneInString_def)
next
  case (Cons c cs)
  then have "s \<noteq> []" by simp
  from DecodeRuneInString_size_cases [OF this] Cons show ?thesis by auto
qed

lemma scanBack_le: "scanBack s start lim \<le> start"
  by (induction s start lim rule: scanBack.induct) (subst scanBack.simps, auto)

lemma DecodeLastRuneInString_size_pos: "s \<noteq> [] \<Longrightarrow> 0 < snd (DecodeLastRuneInString s)"
proof -
  assume ne: "s \<noteq> []"
  let ?e = "int (length s)"
  let ?st = "max 0 (scanBack s (?e - 2) (max 0 (?e - 4)))"
  have "?st < ?e" using ne scanBack_le [of s "?e - 2" "max 0 (?e - 4)"] by (cases s) auto
  then have "nat ?st < length s" by linarith
  then have "drop (nat ?st) s \<noteq> []" by simp
  then have "0 < snd (DecodeRuneInString (drop (nat ?st) s))"
    by (rule DecodeRuneInString_size_pos)
  then show ?thesis
    using ne by (auto simp: DecodeLastRuneInString_def Let_def split: prod.splits)
qed

lemma DecodeLastRuneInString_size_le: "snd (DecodeLastRuneInString s) \<le> length s"
  by (cases s) (auto simp: DecodeLastRuneInString_def Let_def split: prod.splits)

lemma HasPrefix_comma: "HasPrefix (c # s) '','' \<longleftrightarrow> c = CHR '',''"
  by (simp add: HasPrefix_def)

lemma genSplit_comma:
  "genSplit piece s '','' =
    (piece @ takeWhile (\<lambda>c. c \<noteq> CHR '','') s)
    # (if CHR '','' \<in> set s then genSplit [] (tl (dropWhile (\<lambda>c. c \<noteq> CHR '','') s)) '','' else [])"
proof (induction s arbitrary: piece)
  case Nil
  show ?case by (subst genSplit.simps) simp
next
  case (Cons c s)
  show ?case
  proof (cases "c = CHR '',''")
    case True
    then show ?thesis by (subst genSplit.simps) (simp add: HasPrefix_comma)
  next
    case False
    then show ?thesis
      by (subst genSplit.simps) (simp add: HasPrefix_comma Cons.IH [of "piece @ [c]"])
  qed
qed

lemma Split_comma:
  "Split s '','' =
    takeWhile (\<lambda>c. c \<noteq> CHR '','') s
    # (if CHR '','' \<in> set s then Split (tl (dropWhile (\<lambda>c. c \<noteq> CHR '','') s)) '','' else [])"
  unfolding Split_def using genSplit_comma [of "[]" s] by simp

lemma Split_comma_length: "1 \<le> length (Split s '','')"
  by (subst Split_comma) simp

lemma Split_comma_0: "Split s '','' ! 0 = takeWhile (\<lambda>c. c \<noteq> CHR '','') s"
  by (subst Split_comma) simp

lemma Split_comma_length2: "2 \<le> length (Split s '','') \<longleftrightarrow> CHR '','' \<in> set s"
  by (subst Split_comma, subst Split_comma) simp

lemma Split_comma_1:
  "CHR '','' \<in> set s \<Longrightarrow>
   Split s '','' ! 1 = takeWhile (\<lambda>c. c \<noteq> CHR '','') (tl (dropWhile (\<lambda>c. c \<noteq> CHR '','') s))"
  by (subst Split_comma, subst Split_comma) simp

lemma Each_append: "Each (xs @ ys) i f st = Each ys (i + length xs) f (Each xs i f st)"
  by (induction xs arbitrary: i st) auto

lemma rowFunc_found: "dataContainerFound (rowFunc i cols st) = True"
  by (simp add: rowFunc_def Let_def)

lemma rowFunc_header: "rowFunc 0 cols st = st\<lparr>dataContainerFound := True\<rparr>"
  by (simp add: rowFunc_def)

lemma rowFunc_index: "0 < i \<Longrightarrow> 0 < j \<Longrightarrow> rowFunc i cols st = rowFunc j cols st"
  by (simp add: rowFunc_def)


lemma Each_rowFunc_found: "rows \<noteq> [] \<Longrightarrow> dataContainerFound (Each rows i rowFunc st)"
proof (induction rows arbitrary: i st)
  case Nil then show ?case by simp
next
  case (Cons r rows)
  show ?case
  proof (cases rows)
    case Nil then show ?thesis by (simp add: rowFunc_found)
  next
    case (Cons a list)
    then show ?thesis using Cons.IH by simp
  qed
qed

lemma Each_rowFunc_index:
  "0 < i \<Longrightarrow> 0 < j \<Longrightarrow> Each rows i rowFunc st = Each rows j rowFunc st"
proof (induction rows arbitrary: i j st)
  case Nil
  show ?case by simp
next
  case (Cons r rows)
  have "Each (r # rows) i rowFunc st = Each rows (i + 1) rowFunc (rowFunc i r st)" by simp
  also have "\<dots> = Each rows (j + 1) rowFunc (rowFunc i r st)"
    by (rule Cons.IH) simp_all
  also have "rowFunc i r st = rowFunc j r st"
    using Cons.prems by (rule rowFunc_index)
  finally show ?case by simp
qed

lemma rowFunc_short: "0 < i \<Longrightarrow> length cols < 2 \<Longrightarrow> rowFunc i cols st = st\<lparr>dataContainerFound := True\<rparr>"
  by (simp add: rowFunc_def)

lemma rowFunc_nonempty_fields:
  "\<forall>r \<in> set (resultsList st). Postcode r \<noteq> [] \<and> Suburb r \<noteq> [] \<Longrightarrow>
   \<forall>r \<in> set (resultsList (rowFunc i cols st)). Postcode r \<noteq> [] \<and> Suburb r \<noteq> []"
  unfolding rowFunc_def Let_def by (auto split: if_splits)

lemma Each_rowFunc_nonempty_fields:
  "\<forall>r \<in> set (resultsList st). Postcode r \<noteq> [] \<and> Suburb r \<noteq> [] \<Longrightarrow>
   \<forall>r \<in> set (resultsList (Each rows i rowFunc st)). Postcode r \<noteq> [] \<and> Suburb r \<noteq> []"
proof (induction rows arbitrary: i st)
  case Nil
  then show ?case by simp
next
  case (Cons r rows)
  from Cons.prems have "\<forall>r' \<in> set (resultsList (rowFunc i r st)). Postcode r' \<noteq> [] \<and> Suburb r' \<noteq> []"
    by (rule rowFunc_nonempty_fields)
  from Cons.IH [OF this] show ?case by simp
qed

lemma Each_rowFunc_found_id:
  "rows \<noteq> [] \<Longrightarrow> (Each rows i rowFunc st)\<lparr>dataContainerFound := True\<rparr> = Each rows i rowFunc st"
  using Each_rowFunc_found [of rows i st] by simp

lemma Each_skip_short_row:
  assumes "pre \<noteq> []" and "length cols < 2"
  shows "Each (pre @ cols # post) 0 rowFunc st = Each (pre @ post) 0 rowFunc st"
proof -
  let ?mid = "Each pre 0 rowFunc st"
  have pos: "0 < length pre" using assms(1) by simp
  have "Each (pre @ cols # post) 0 rowFunc st
      = Each post (length pre + 1) rowFunc (rowFunc (length pre) cols ?mid)"
    by (simp add: Each_append)
  also have "rowFunc (length pre) cols ?mid = ?mid\<lparr>dataContainerFound := True\<rparr>"
    using pos assms(2) by (rule rowFunc_short)
  also have "?mid\<lparr>dataContainerFound := True\<rparr> = ?mid"
    using assms(1) by (rule Each_rowFunc_found_id)
  also have "Each post (length pre + 1) rowFunc ?mid = Each post (length pre) rowFunc ?mid"
    using pos by (intro Each_rowFunc_index) simp_all
  also have "\<dots> = Each (pre @ post) 0 rowFunc st"
    by (simp add: Each_append)
  finally show ?thesis .
qed

lemma searchPostcodes_table:
  assumes "keyword \<noteq> []"
    and "http_NewRequest env (targetUrl env keyword) = None"
    and "client_Do env (targetUrl env keyword) = Inr resp"
    and "StatusCode resp = StatusOK"
    and "Body resp = Inr rows"
  shows \<open>snd (searchPostcodes env keyword) =
    (let st = Each rows 0 rowFunc \<lparr>resultsList = [], dataContainerFound = False\<rparr> in
     if resultsList st = [] then
       Sprintf ''{"message": "No postcodes found for keyword '%s'. Please verify the CSS selectors."}''
         [Str keyword]
     else (case MarshalIndent (resultsList st) [] ''    '' of Inl err \<Rightarrow> [] | Inr out \<Rightarrow> out))\<close>
  using assms unfolding searchPostcodes_def Let_def MarshalIndent_def
  by simp

lemma Contains_message:
  \<open>Contains (''{"message": "No postcodes found for keyword '' @ [CHR 0x27] @ keyword @ [CHR 0x27]
       @ ''. Please verify the CSS selectors."}'') ''"message"''\<close>
  by (simp add: HasPrefix_def)

lemma handler_response:
  assumes "Get query ''keyword'' = keyword" and "keyword \<noteq> []"
  shows \<open>snd (postcodeHandler env newResponseWriter query) =
    \<lparr>Header = [''Content-Type'' \<mapsto> ''application/json''], wroteHeader = True,
     status = (if Contains (snd (searchPostcodes env keyword)) ''"error"''
                  \<or> Contains (snd (searchPostcodes env keyword)) ''"message"''
               then 500 else 200),
     body = snd (searchPostcodes env keyword)\<rparr>\<close>
  using assms
  by (simp add: postcodeHandler_def Let_def newResponseWriter_def Header_Set_def Write_def
      WriteHeader_def StatusOK_def StatusInternalServerError_def split: prod.splits)

lemma Encode_map_missing_keyword:
  \<open>Encode_map
     [(''error'', ''Missing 'keyword' parameter in the query string. Example: /search?keyword=sydney'')]
   = ''{"error":"Missing 'keyword' parameter in the query string. Example: /search?keyword=sydney"}''
     @ [CHR 0x0A]\<close>
  by code_simp

lemma rowFunc_unfold:
  assumes "0 < i" and "2 \<le> length cols"
  shows "rowFunc i cols st =
    (let postcodeText = TrimSpace (cols ! 0);
         fullSuburbText = TrimSpace (cols ! 1);
         suburb = TrimSpace (takeWhile (\<lambda>c. c \<noteq> CHR '','') fullSuburbText);
         state = (if CHR '','' \<in> set fullSuburbText
                  then TrimSpace (takeWhile (\<lambda>c. c \<noteq> CHR '','')
                         (tl (dropWhile (\<lambda>c. c \<noteq> CHR '','') fullSuburbText)))
                  else []) in
     if postcodeText \<noteq> [] \<and> suburb \<noteq> [] then
       st\<lparr>dataContainerFound := True,
          resultsList := resultsList st
            @ [\<lparr>Postcode = postcodeText, Suburb = suburb, State = state\<rparr>]\<rparr>
     else st\<lparr>dataContainerFound := True\<rparr>)"
proof -
  let ?full = "TrimSpace (cols ! 1)"
  have len1: "1 \<le> length (Split ?full '','')" by (rule Split_comma_length)
  have p0: "Split ?full '','' ! 0 = takeWhile (\<lambda>c. c \<noteq> CHR '','') ?full" by (rule Split_comma_0)
  show ?thesis
  proof (cases "CHR '','' \<in> set ?full")
    case True
    then have len2: "2 \<le> length (Split ?full '','')" by (simp add: Split_comma_length2)
    have p1: "Split ?full '','' ! 1 =
        takeWhile (\<lambda>c. c \<noteq> CHR '','') (tl (dropWhile (\<lambda>c. c \<noteq> CHR '','') ?full))"
      using True by (rule Split_comma_1)
    show ?thesis
      using assms True len1 len2 p0 p1 by (simp add: rowFunc_def Let_def)
  next
    case False
    then have len2: "\<not> 2 \<le> length (Split ?full '','')" by (simp add: Split_comma_length2)
    show ?thesis
      using assms False len1 len2 p0 by (simp add: rowFunc_def Let_def)
  qed
qed

lemma runes_Cons:
  "s \<noteq> [] \<Longrightarrow> runes s = fst (DecodeRuneInString s) # runes (drop (snd (DecodeRuneInString s)) s)"
  by (subst runes.simps) (simp add: split_def Let_def)

lemma indexFunc_all:
  "list_all f (runes (drop i s)) \<Longrightarrow> indexFunc s f False i = None"
proof (induction s f "False" i rule: indexFunc.induct)
  case (1 s f i)
  show ?case
  proof (cases "i < length s")
    case False
    then show ?thesis by (subst indexFunc.simps) simp
  next
    case True
    obtain r size where d: "DecodeRuneInString (drop i s) = (r, size)" by force
    from True have ne: "drop i s \<noteq> []" by simp
    from runes_Cons [OF ne] d
    have rs: "runes (drop i s) = r # runes (drop (i + size) s)" by (simp add: add.commute)
    with "1.prems" have fr: "f r" and rest: "list_all f (runes (drop (i + size) s))" by simp_all
    have "indexFunc s f False (i + size) = None"
      using "1.hyps" [OF True d [symmetric] refl] fr rest by simp
    then show ?thesis
      using True d fr by (subst indexFunc.simps) simp
  qed
qed

lemma lastIndexFunc_Nil: "lastIndexFunc [] f truth = None"
  by (subst lastIndexFunc.simps) simp

lemma TrimRightFunc_Nil: "TrimRightFunc [] f = []"
  by (simp add: TrimRightFunc_def lastIndexFunc_Nil)

lemma TrimSpace_all_space: "list_all IsSpace (runes s) \<Longrightarrow> TrimSpace s = []"
  using indexFunc_all [of IsSpace 0 s]
  by (simp add: TrimSpace_def TrimFunc_def TrimLeftFunc_def TrimRightFunc_Nil)

lemma ToLower_Nil: "ToLower lower [] = []"
  by (simp add: ToLower_def)

lemma searchPostcodes_not_rejected:
  \<open>keyword \<noteq> [] \<Longrightarrow> snd (searchPostcodes env keyword) \<noteq> ''{"error": "Keyword cannot be empty."}''\<close>
  by (auto simp: searchPostcodes_def Let_def MarshalIndent_def split: option.splits sum.splits)

lemma searchPostcodes_first_event:
  \<open>keyword \<noteq> [] \<Longrightarrow>
   take 1 (fst (searchPostcodes env keyword)) = [Log (''Scraping target: '' @ targetUrl env keyword)]\<close>
  by (auto simp: searchPostcodes_def Let_def MarshalIndent_def split: option.splits sum.splits)

lemma Decode_valid_lead:
  "2 \<le> snd (DecodeRuneInString p) \<Longrightarrow> RuneSelf \<le> byte (p ! 0) \<and> snd (DecodeRuneInString p) = seqLen (byte (p ! 0))"
  unfolding DecodeRuneInString_def Let_def
  by (auto simp: seqLen_def split: if_splits)

lemma Decode_append_valid:
  assumes "2 \<le> snd (DecodeRuneInString p)"
  shows "DecodeRuneInString (p @ q) = DecodeRuneInString p"
proof -
  have len: "seqLen (byte (p ! 0)) \<le> length p"
    using assms Decode_valid_lead [OF assms] DecodeRuneInString_size_le [of p] by simp
  have ne: "p \<noteq> []" using assms by (auto simp: DecodeRuneInString_def)
  have sl: "2 \<le> seqLen b \<and> seqLen b \<le> 4" for b by (simp add: seqLen_def)
  have n0: "(p @ q) ! 0 = p ! 0" using ne by (simp add: nth_append)
  have n1: "(p @ q) ! 1 = p ! 1" using len sl [of "byte (p ! 0)"] by (simp add: nth_append)
  have n2: "3 \<le> seqLen (byte (p ! 0)) \<Longrightarrow> (p @ q) ! 2 = p ! 2"
    using len by (simp add: nth_append)
  have n3: "4 \<le> seqLen (byte (p ! 0)) \<Longrightarrow> (p @ q) ! 3 = p ! 3"
    using len by (simp add: nth_append)
  show ?thesis
    using assms ne len n0 n1 n2 n3
    unfolding DecodeRuneInString_def Let_def
    by (auto simp: seqLen_def split: if_splits)
qed

lemma Decode_lone_lead:
  assumes "RuneSelf \<le> byte c" and "q = [] \<or> RuneStart (hd q)"
  shows "snd (DecodeRuneInString (c # q)) = 1"
proof (cases q)
  case Nil
  then show ?thesis
    using assms(1) unfolding DecodeRuneInString_def Let_def
    by (auto simp: seqLen_def RuneSelf_def)
next
  case (Cons d q')
  with assms(2) have "byte d < 0x80 \<or> 0xC0 \<le> byte d" by (auto simp: RuneStart_def)
  then show ?thesis
    using assms(1) Cons unfolding DecodeRuneInString_def Let_def
    by (auto simp: seqLen_def RuneSelf_def acceptLo_def acceptHi_def)
qed

lemma Decode_size_one:
  "x \<noteq> [] \<Longrightarrow> snd (DecodeRuneInString x) < 2 \<Longrightarrow>
   DecodeRuneInString x = (if byte (x ! 0) < RuneSelf then (byte (x ! 0), 1) else (RuneError, 1))"
  unfolding DecodeRuneInString_def Let_def
  by (auto split: if_splits)

lemma Decode_nonerror_start:
  assumes "fst (DecodeRuneInString x) \<noteq> RuneError"
  shows "x \<noteq> [] \<and> RuneStart (hd x)"
proof -
  have ne: "x \<noteq> []" using assms by (auto simp: DecodeRuneInString_def)
  have "\<not> (0x80 \<le> byte (x ! 0) \<and> byte (x ! 0) < 0xC0)"
    using assms ne unfolding DecodeRuneInString_def Let_def
    by (auto simp: RuneSelf_def split: if_splits)
  with ne show ?thesis by (cases x) (auto simp: RuneStart_def)
qed

lemma Decode_take:
  assumes "0 < e"
  shows "fst (DecodeRuneInString (take e t)) = fst (DecodeRuneInString t)
       \<or> fst (DecodeRuneInString (take e t)) = RuneError"
proof (cases "t = []")
  case True
  then show ?thesis by simp
next
  case False
  with assms have ne: "take e t \<noteq> []" by simp
  show ?thesis
  proof (cases "2 \<le> snd (DecodeRuneInString (take e t))")
    case True
    from Decode_append_valid [OF True, of "drop e t"] show ?thesis by simp
  next
    case small: False
    then have one: "DecodeRuneInString (take e t) =
        (if byte (take e t ! 0) < RuneSelf then (byte (take e t ! 0), 1) else (RuneError, 1))"
      using ne by (intro Decode_size_one) simp_all
    have hd0: "take e t ! 0 = t ! 0" using assms by simp
    show ?thesis
    proof (cases "byte (t ! 0) < RuneSelf")
      case True
      then have "DecodeRuneInString t = (byte (t ! 0), 1)"
        using False by (simp add: DecodeRuneInString_def)
      with one hd0 True show ?thesis by simp
    next
      case False
      with one hd0 show ?thesis by simp
    qed
  qed
qed

lemma DecodeLast_cases:
  assumes "u \<noteq> []"
  obtains (ascii) "byte (last u) < RuneSelf" "DecodeLastRuneInString u = (byte (last u), 1)"
  | (invalid) "RuneSelf \<le> byte (last u)" "DecodeLastRuneInString u = (RuneError, 1)"
  | (valid) start where "RuneSelf \<le> byte (last u)" "start < length u"
      "DecodeLastRuneInString u = DecodeRuneInString (drop start u)"
      "start + snd (DecodeRuneInString (drop start u)) = length u"
proof -
  let ?e = "int (length u)"
  let ?st = "max 0 (scanBack u (?e - 2) (max 0 (?e - 4)))"
  have "nat (?e - 1) = length u - 1" by linarith
  then have lastu: "u ! nat (?e - 1) = last u"
    using assms by (simp add: last_conv_nth)
  have lt: "?st < ?e" using assms scanBack_le [of u "?e - 2" "max 0 (?e - 4)"] by (cases u) auto
  then have st: "nat ?st < length u" by linarith
  show thesis
  proof (cases "byte (last u) < RuneSelf")
    case True
    then have "DecodeLastRuneInString u = (byte (last u), 1)"
      using assms lastu by (simp add: DecodeLastRuneInString_def Let_def)
    with True show thesis by (rule ascii)
  next
    case False
    obtain r k where d: "DecodeRuneInString (drop (nat ?st) u) = (r, k)" by force
    show thesis
    proof (cases "?st + int k = ?e")
      case True
      have "DecodeLastRuneInString u = (r, k)"
        using assms lastu False d True by (simp add: DecodeLastRuneInString_def Let_def)
      moreover have "nat ?st + k = length u" using True by linarith
      ultimately show thesis using False st d by (intro valid [of "nat ?st"]) simp_all
    next
      case neq: False
      have "DecodeLastRuneInString u = (RuneError, 1)"
        using assms lastu False d neq by (simp add: DecodeLastRuneInString_def Let_def)
      with False show thesis by (intro invalid) simp_all
    qed
  qed
qed

lemma DecodeLast_redecode:
  assumes "u \<noteq> []" and "q = [] \<or> RuneStart (hd q)"
  shows "(let i = length u - snd (DecodeLastRuneInString u) in
          if RuneSelf \<le> byte ((u @ q) ! i)
          then i + snd (DecodeRuneInString (drop i (u @ q))) else i + 1) = length u"
proof -
  have len: "0 < length u" using assms(1) by simp
  have lastn: "(u @ q) ! (length u - 1) = last u"
    using assms(1) by (simp add: nth_append last_conv_nth)
  have "drop (length (butlast u)) ((butlast u @ [last u]) @ q) = last u # q" by simp
  then have dropl: "drop (length u - 1) (u @ q) = last u # q"
    using assms(1) by simp
  have lone: "snd (DecodeRuneInString (last u # q)) = 1" if "RuneSelf \<le> byte (last u)"
    using that assms(2) by (rule Decode_lone_lead)
  from assms(1) show ?thesis
  proof (cases rule: DecodeLast_cases)
    case ascii
    then show ?thesis using len lastn by (simp add: Let_def)
  next
    case invalid
    then show ?thesis using len lastn dropl lone by (simp add: Let_def)
  next
    case (valid start)
    let ?k = "snd (DecodeRuneInString (drop start u))"
    have i: "length u - snd (DecodeLastRuneInString u) = start"
      using valid(3,4) by simp
    show ?thesis
    proof (cases "2 \<le> ?k")
      case True
      have "DecodeRuneInString (drop start u @ q) = DecodeRuneInString (drop start u)"
        using True by (rule Decode_append_valid)
      moreover have "RuneSelf \<le> byte (drop start u ! 0)"
        using Decode_valid_lead [OF True] by simp
      then have "RuneSelf \<le> byte ((u @ q) ! start)"
        using valid(2) by (simp add: nth_append)
      ultimately show ?thesis using i valid(2,4) by (simp add: Let_def)
    next
      case False
      have "drop start u \<noteq> []" using valid(2) by simp
      then have "0 < ?k" by (rule DecodeRuneInString_size_pos)
      with False have k: "?k = 1" by simp
      with valid(4) have s: "start = length u - 1" by simp
      show ?thesis
        using i s valid(1) len lastn dropl lone by (simp add: Let_def)
    qed
  qed
qed

lemma DecodeLast_nonerror_start:
  assumes "u \<noteq> []" and "fst (DecodeLastRuneInString u) \<noteq> RuneError"
  shows "RuneStart (hd (drop (length u - snd (DecodeLastRuneInString u)) u))"
proof -
  have "drop (length (butlast u)) (butlast u @ [last u]) = [last u]" by simp
  then have dropl: "drop (length u - 1) u = [last u]"
    using assms(1) by simp
  from assms(1) show ?thesis
  proof (cases rule: DecodeLast_cases)
    case ascii
    then show ?thesis using dropl by (simp add: RuneStart_def RuneSelf_def)
  next
    case invalid
    with assms(2) show ?thesis by simp
  next
    case (valid start)
    have i: "length u - snd (DecodeLastRuneInString u) = start"
      using valid(3,4) by simp
    have "fst (DecodeRuneInString (drop start u)) \<noteq> RuneError"
      using assms(2) valid(3) by simp
    from Decode_nonerror_start [OF this] show ?thesis using i by simp
  qed
qed

lemma lastIndexFunc_result:
  "\<not> f RuneError \<Longrightarrow> q = [] \<or> RuneStart (hd q) \<Longrightarrow>
    (case lastIndexFunc p f False of
       None \<Rightarrow> True
     | Some i \<Rightarrow>
         \<exists>e. 0 < e \<and> e \<le> length p \<and> \<not> f (fst (DecodeLastRuneInString (take e p)))
           \<and> (if RuneSelf \<le> byte ((p @ q) ! i)
                then i + snd (DecodeRuneInString (drop i (p @ q))) else i + 1) = e)"
proof (induction p f "False" arbitrary: q rule: lastIndexFunc.induct)
  case (1 s f)
  show ?case
  proof (cases "0 < length s")
    case False
    then show ?thesis by (subst lastIndexFunc.simps) simp
  next
    case True
    then have ne: "s \<noteq> []" by simp
    obtain r size where d: "DecodeLastRuneInString s = (r, size)" by force
    let ?i = "length s - size"
    have size: "0 < size" "size \<le> length s"
      using DecodeLastRuneInString_size_pos [OF ne] DecodeLastRuneInString_size_le [of s] d by simp_all
    show ?thesis
    proof (cases "f r")
      case False
      have "(if RuneSelf \<le> byte ((s @ q) ! ?i)
             then ?i + snd (DecodeRuneInString (drop ?i (s @ q))) else ?i + 1) = length s"
        using DecodeLast_redecode [OF ne "1.prems"(2)] d by (simp add: Let_def)
      moreover have "\<not> f (fst (DecodeLastRuneInString (take (length s) s)))"
        using False d by simp
      ultimately have "\<exists>e. 0 < e \<and> e \<le> length s \<and> \<not> f (fst (DecodeLastRuneInString (take e s)))
           \<and> (if RuneSelf \<le> byte ((s @ q) ! ?i)
                then ?i + snd (DecodeRuneInString (drop ?i (s @ q))) else ?i + 1) = e"
        using True by blast
      then show ?thesis
        using True d False by (subst lastIndexFunc.simps) (simp add: Let_def)
    next
      case fr: True
      with "1.prems"(1) have rne: "fst (DecodeLastRuneInString s) \<noteq> RuneError"
        using d by auto
      let ?q' = "drop ?i s @ q"
      have q'ne: "drop ?i s \<noteq> []" using size by simp
      have "RuneStart (hd (drop ?i s))"
        using DecodeLast_nonerror_start [OF ne rne] d by simp
      then have start: "?q' = [] \<or> RuneStart (hd ?q')" using q'ne by simp
      have app: "take ?i s @ ?q' = s @ q" by simp
      have rec: "lastIndexFunc s f False = lastIndexFunc (take ?i s) f False"
        using True d fr by (subst lastIndexFunc.simps) (simp add: Let_def)
      have IH: "case lastIndexFunc (take ?i s) f False of
          None \<Rightarrow> True
        | Some i \<Rightarrow>
            \<exists>e. 0 < e \<and> e \<le> length (take ?i s)
              \<and> \<not> f (fst (DecodeLastRuneInString (take e (take ?i s))))
              \<and> (if RuneSelf \<le> byte ((take ?i s @ ?q') ! i)
                   then i + snd (DecodeRuneInString (drop i (take ?i s @ ?q'))) else i + 1) = e"
        using "1.hyps" [OF True refl d [symmetric] refl _ "1.prems"(1) start] fr by simp
      show ?thesis
      proof (cases "lastIndexFunc (take ?i s) f False")
        case None
        then show ?thesis using rec by simp
      next
        case (Some j)
        with IH obtain e where e: "0 < e" "e \<le> length (take ?i s)"
          "\<not> f (fst (DecodeLastRuneInString (take e (take ?i s))))"
          "(if RuneSelf \<le> byte ((take ?i s @ ?q') ! j)
             then j + snd (DecodeRuneInString (drop j (take ?i s @ ?q'))) else j + 1) = e"
          by auto
        have "e \<le> ?i" using e(2) by simp
        then have "take e (take ?i s) = take e s" by (simp add: min_absorb1)
        with e have "0 < e \<and> e \<le> length s \<and> \<not> f (fst (DecodeLastRuneInString (take e s)))
           \<and> (if RuneSelf \<le> byte ((s @ q) ! j)
                then j + snd (DecodeRuneInString (drop j (s @ q))) else j + 1) = e"
          unfolding app by simp
        then show ?thesis using rec Some by auto
      qed
    qed
  qed
qed

lemma TrimRightFunc_shape:
  assumes "\<not> f RuneError"
  shows "TrimRightFunc t f = []
    \<or> (\<exists>e. 0 < e \<and> e \<le> length t \<and> TrimRightFunc t f = take e t
           \<and> \<not> f (fst (DecodeLastRuneInString (take e t))))"
proof (cases "lastIndexFunc t f False")
  case None
  then show ?thesis by (simp add: TrimRightFunc_def)
next
  case (Some i)
  from lastIndexFunc_result [of f "[]" t] assms Some
  obtain e where e: "0 < e" "e \<le> length t" "\<not> f (fst (DecodeLastRuneInString (take e t)))"
    "(if RuneSelf \<le> byte (t ! i) then i + snd (DecodeRuneInString (drop i t)) else i + 1) = e"
    by auto
  have "TrimRightFunc t f = take e t"
    using Some e(4) by (auto simp: TrimRightFunc_def split: if_splits)
  with e show ?thesis by blast
qed

lemma TrimRightFunc_keep:
  assumes "u \<noteq> []" and "\<not> f (fst (DecodeLastRuneInString u))"
  shows "TrimRightFunc u f = u"
proof -
  obtain r size where d: "DecodeLastRuneInString u = (r, size)" by force
  have idx: "lastIndexFunc u f False = Some (length u - size)"
    using assms d by (subst lastIndexFunc.simps) (simp add: Let_def)
  have "(if RuneSelf \<le> byte (u ! (length u - size))
         then length u - size + snd (DecodeRuneInString (drop (length u - size) u))
         else length u - size + 1) = length u"
    using DecodeLast_redecode [OF assms(1), of "[]"] d by (simp add: Let_def split: if_splits)
  then show ?thesis
    using idx by (auto simp: TrimRightFunc_def split: if_splits)
qed

lemma indexFunc_Some:
  "indexFunc s f False i = Some j \<Longrightarrow>
   j < length s \<and> \<not> f (fst (DecodeRuneInString (drop j s)))"
proof (induction s f "False" i rule: indexFunc.induct)
  case (1 s f i)
  show ?case
  proof (cases "i < length s")
    case False
    with "1.prems" show ?thesis by (subst (asm) indexFunc.simps) simp
  next
    case True
    obtain r size where d: "DecodeRuneInString (drop i s) = (r, size)" by force
    show ?thesis
    proof (cases "f r")
      case False
      with "1.prems" True d have "j = i" by (subst (asm) indexFunc.simps) simp
      with True False d show ?thesis by simp
    next
      case fr: True
      with "1.prems" True d have "indexFunc s f False (i + size) = Some j"
        by (subst (asm) indexFunc.simps) simp
      with "1.hyps" [OF True d [symmetric] refl] fr show ?thesis by simp
    qed
  qed
qed

lemma TrimLeftFunc_shape:
  "TrimLeftFunc s f = [] \<or> \<not> f (fst (DecodeRuneInString (TrimLeftFunc s f)))"
proof (cases "indexFunc s f False 0")
  case None
  then show ?thesis by (simp add: TrimLeftFunc_def)
next
  case (Some j)
  from indexFunc_Some [OF Some] Some show ?thesis by (simp add: TrimLeftFunc_def)
qed

lemma TrimLeftFunc_keep:
  assumes "u \<noteq> []" and "\<not> f (fst (DecodeRuneInString u))"
  shows "TrimLeftFunc u f = u"
proof -
  obtain r size where d: "DecodeRuneInString u = (r, size)" by force
  have "indexFunc u f False 0 = Some 0"
    using assms d by (subst indexFunc.simps) simp
  then show ?thesis by (simp add: TrimLeftFunc_def)
qed

lemma TrimLeftFunc_Nil: "TrimLeftFunc [] f = []"
  by (subst TrimLeftFunc_def, subst indexFunc.simps) simp

lemma TrimFunc_idem:
  assumes "\<not> f RuneError"
  shows "TrimFunc (TrimFunc s f) f = TrimFunc s f"
proof -
  let ?t = "TrimLeftFunc s f"
  let ?u = "TrimRightFunc ?t f"
  have "?u = [] \<or> (\<exists>e. 0 < e \<and> e \<le> length ?t \<and> ?u = take e ?t
      \<and> \<not> f (fst (DecodeLastRuneInString (take e ?t))))"
    using assms by (rule TrimRightFunc_shape)
  then show ?thesis
  proof
    assume "?u = []"
    then show ?thesis by (simp add: TrimFunc_def TrimLeftFunc_Nil TrimRightFunc_Nil)
  next
    assume "\<exists>e. 0 < e \<and> e \<le> length ?t \<and> ?u = take e ?t
      \<and> \<not> f (fst (DecodeLastRuneInString (take e ?t)))"
    then obtain e where e: "0 < e" "e \<le> length ?t" "?u = take e ?t"
      "\<not> f (fst (DecodeLastRuneInString (take e ?t)))" by blast
    from e(1,2) have tne: "?t \<noteq> []" by auto
    with e(1,3) have une: "?u \<noteq> []" by simp
    from TrimLeftFunc_shape [of s f] tne have "\<not> f (fst (DecodeRuneInString ?t))" by simp
    with Decode_take [OF e(1), of ?t] assms e(3) have "\<not> f (fst (DecodeRuneInString ?u))"
      by auto
    with une have l: "TrimLeftFunc ?u f = ?u" by (rule TrimLeftFunc_keep)
    from e(3,4) have "\<not> f (fst (DecodeLastRuneInString ?u))" by simp
    with une have r: "TrimRightFunc ?u f = ?u" by (rule TrimRightFunc_keep)
    show ?thesis by (simp add: TrimFunc_def l r)
  qed
qed

lemma TrimSpace_idem: "TrimSpace (TrimSpace s) = TrimSpace s"
  unfolding TrimSpace_def by (rule TrimFunc_idem) (simp add: IsSpace_def RuneError_def)

lemma scan_plain_string:
  "\<forall>c \<in> set s. 0x20 \<le> byte c \<and> c \<noteq> CHR 0x22 \<and> c \<noteq> CHR 0x5C \<Longrightarrow>
   foldl scanStep (stateInString, ps) s = (stateInString, ps)"
  by (induction s) (auto simp: scanStep_def)

lemma message_Valid_plain:
  assumes "\<forall>c \<in> set keyword. 0x20 \<le> byte c \<and> c \<noteq> CHR 0x22 \<and> c \<noteq> CHR 0x5C"
  shows \<open>Valid (''{"message": "No postcodes found for keyword '' @ [CHR 0x27] @ keyword @ [CHR 0x27]
        @ ''. Please verify the CSS selectors."}'')\<close>
proof -
  have pre: \<open>foldl scanStep (stateBeginValue, [])
      (''{"message": "No postcodes found for keyword '' @ [CHR 0x27])
      = (stateInString, [parseObjectValue])\<close>
    by code_simp
  have post: \<open>fst (scanStep (foldl scanStep (stateInString, [parseObjectValue])
      ([CHR 0x27] @ ''. Please verify the CSS selectors."}'')) CHR '' '') = stateEndTop\<close>
    by code_simp
  have \<open>foldl scanStep (stateBeginValue, [])
      (''{"message": "No postcodes found for keyword '' @ [CHR 0x27] @ keyword @ [CHR 0x27]
        @ ''. Please verify the CSS selectors."}'')
    = foldl scanStep (foldl scanStep (foldl scanStep (stateBeginValue, [])
        (''{"message": "No postcodes found for keyword '' @ [CHR 0x27])) keyword)
        ([CHR 0x27] @ ''. Please verify the CSS selectors."}'')\<close>
    by (simp only: foldl_append append_assoc)
  then show ?thesis
    unfolding Valid_def using pre post scan_plain_string [OF assms, of "[parseObjectValue]"]
    by simp
qed

subsection \<open>The claims\<close>

text \<open>
  Claim C8. The first row that the selector finds (the header row) adds no record,
  whatever its cells hold: the callback at index 0 only notes that a row was found, and
  scanning a table is scanning the rows after the first one, from index 1 on.
\<close>

theorem header_row_contributes_nothing:
  "rowFunc 0 hdr st = st\<lparr>dataContainerFound := True\<rparr>
   \<and> Each (hdr # rows) 0 rowFunc st = Each rows 1 rowFunc (st\<lparr>dataContainerFound := True\<rparr>)"
  by (simp add: rowFunc_header)

text \<open>A header whose cells would make a record, in a table with no other row.\<close>

theorem header_row_contributes_nothing_witness:
  "resultsList (Each [[''2000'', ''SYDNEY, NSW'']] 0 rowFunc
      \<lparr>resultsList = [], dataContainerFound = False\<rparr>) = []"
  using header_row_contributes_nothing
    [of "[''2000'', ''SYDNEY, NSW'']" "\<lparr>resultsList = [], dataContainerFound = False\<rparr>" "[]"]
  by simp

text \<open>
  Claim C7. A row after the header with fewer than two cells adds no record, and the
  scan goes on as if the row were not there: the state after the whole table is the
  state after the table without it. When the page was fetched with status 200 and
  parsed, the result is therefore the "no postcodes" message or the array of the
  records of the other rows, never an error.
\<close>

theorem short_row_is_skipped:
  assumes "pre \<noteq> []" and "length cols < 2"
    and "keyword \<noteq> []"
    and "http_NewRequest env (targetUrl env keyword) = None"
    and "client_Do env (targetUrl env keyword) = Inr resp"
    and "StatusCode resp = StatusOK"
    and "Body resp = Inr (pre @ cols # post)"
  shows \<open>rowFunc (length pre) cols st = st\<lparr>dataContainerFound := True\<rparr>
    \<and> Each (pre @ cols # post) 0 rowFunc st = Each (pre @ post) 0 rowFunc st
    \<and> (let others = resultsList (Each (pre @ post) 0 rowFunc
                        \<lparr>resultsList = [], dataContainerFound = False\<rparr>) in
       if others = [] then
         snd (searchPostcodes env keyword) =
           ''{"message": "No postcodes found for keyword '' @ [CHR 0x27] @ keyword @ [CHR 0x27]
             @ ''. Please verify the CSS selectors."}''
       else Inr (snd (searchPostcodes env keyword)) = MarshalIndent others [] ''    '')\<close>
proof -
  have pos: "0 < length pre" using assms(1) by simp
  have row: "rowFunc (length pre) cols st = st\<lparr>dataContainerFound := True\<rparr>"
    using pos assms(2) by (rule rowFunc_short)
  have skip: "Each (pre @ cols # post) 0 rowFunc st' = Each (pre @ post) 0 rowFunc st'" for st'
    using assms(1,2) by (rule Each_skip_short_row)
  have out: \<open>snd (searchPostcodes env keyword) =
    (let st = Each (pre @ cols # post) 0 rowFunc \<lparr>resultsList = [], dataContainerFound = False\<rparr> in
     if resultsList st = [] then
       Sprintf ''{"message": "No postcodes found for keyword '%s'. Please verify the CSS selectors."}''
         [Str keyword]
     else (case MarshalIndent (resultsList st) [] ''    '' of Inl err \<Rightarrow> [] | Inr out \<Rightarrow> out))\<close>
    using assms(3-7) by (rule searchPostcodes_table)
  show ?thesis
    using row skip out by (simp add: Let_def MarshalIndent_def)
qed

theorem short_row_is_skipped_witness:
  \<open>[[''Postcode'', ''Suburb'']] \<noteq> [] \<and> length [''2000''] < 2 \<and> ''sydney'' \<noteq> []
   \<and> Each ([[''Postcode'', ''Suburb'']] @ [''2000''] # [[''2000'', ''SYDNEY, NSW'']]) 0 rowFunc
         \<lparr>resultsList = [], dataContainerFound = False\<rparr>
       = \<lparr>resultsList = [\<lparr>Postcode = ''2000'', Suburb = ''SYDNEY'', State = ''NSW''\<rparr>],
          dataContainerFound = True\<rparr>
   \<and> Inr (snd (searchPostcodes
         (exampleWorld (examplePage
            ([[''Postcode'', ''Suburb'']] @ [''2000''] # [[''2000'', ''SYDNEY, NSW'']])))
         ''sydney''))
       = MarshalIndent [\<lparr>Postcode = ''2000'', Suburb = ''SYDNEY'', State = ''NSW''\<rparr>] [] ''    ''\<close>
proof -
  let ?pre = "[[''Postcode'', ''Suburb'']]" and ?cols = "[''2000'']"
  let ?post = "[[''2000'', ''SYDNEY, NSW'']]"
  let ?resp = "examplePage (?pre @ ?cols # ?post)"
  let ?env = "exampleWorld ?resp"
  have others: "Each (?pre @ ?post) 0 rowFunc \<lparr>resultsList = [], dataContainerFound = False\<rparr>
      = \<lparr>resultsList = [\<lparr>Postcode = ''2000'', Suburb = ''SYDNEY'', State = ''NSW''\<rparr>],
          dataContainerFound = True\<rparr>"
    by code_simp
  have h1: "?pre \<noteq> []" and h2: "length ?cols < 2" and h3: "''sydney'' \<noteq> []" by simp_all
  have h4: "http_NewRequest ?env (targetUrl ?env ''sydney'') = None"
    and h5: "client_Do ?env (targetUrl ?env ''sydney'') = Inr ?resp"
    by (simp_all add: exampleWorld_def)
  have h6: "StatusCode ?resp = StatusOK" and h7: "Body ?resp = Inr (?pre @ ?cols # ?post)"
    by (simp_all add: examplePage_def StatusOK_def)
  from short_row_is_skipped [OF h1 h2 h3 h4 h5 h6 h7, of "\<lparr>resultsList = [], dataContainerFound = False\<rparr>"]
  show ?thesis using others by (simp add: Let_def)
qed

text \<open>
  Claim C3. Every record that a scan collects has a postcode and a suburb that are not
  empty (both are stored trimmed). A row whose trimmed postcode or whose trimmed suburb
  (the text before the first comma of the trimmed second cell) is empty adds nothing.
  The state may be empty: a row after the header whose second cell has no comma adds a
  record with the empty state.
\<close>

theorem records_have_postcode_and_suburb:
  "(\<forall>r \<in> set (resultsList (Each rows 0 rowFunc \<lparr>resultsList = [], dataContainerFound = False\<rparr>)).
      Postcode r \<noteq> [] \<and> Suburb r \<noteq> [])
   \<and> (TrimSpace (cols ! 0) = []
        \<or> TrimSpace (takeWhile (\<lambda>c. c \<noteq> CHR '','') (TrimSpace (cols ! 1))) = []
      \<longrightarrow> resultsList (rowFunc i cols st) = resultsList st)
   \<and> (0 < i \<and> 2 \<le> length cols \<and> TrimSpace (cols ! 0) \<noteq> []
        \<and> TrimSpace (takeWhile (\<lambda>c. c \<noteq> CHR '','') (TrimSpace (cols ! 1))) \<noteq> []
        \<and> CHR '','' \<notin> set (TrimSpace (cols ! 1))
      \<longrightarrow> resultsList (rowFunc i cols st) =
            resultsList st @ [\<lparr>Postcode = TrimSpace (cols ! 0),
                                Suburb = TrimSpace (takeWhile (\<lambda>c. c \<noteq> CHR '','') (TrimSpace (cols ! 1))),
                                State = []\<rparr>])"
proof (intro conjI impI)
  show "\<forall>r \<in> set (resultsList (Each rows 0 rowFunc \<lparr>resultsList = [], dataContainerFound = False\<rparr>)).
      Postcode r \<noteq> [] \<and> Suburb r \<noteq> []"
    by (rule Each_rowFunc_nonempty_fields) simp
next
  assume empty: "TrimSpace (cols ! 0) = []
    \<or> TrimSpace (takeWhile (\<lambda>c. c \<noteq> CHR '','') (TrimSpace (cols ! 1))) = []"
  show "resultsList (rowFunc i cols st) = resultsList st"
  proof (cases "0 < i \<and> 2 \<le> length cols")
    case True
    then show ?thesis using empty by (auto simp: rowFunc_unfold Let_def)
  next
    case False
    then show ?thesis by (auto simp: rowFunc_def Let_def)
  qed
next
  assume "0 < i \<and> 2 \<le> length cols \<and> TrimSpace (cols ! 0) \<noteq> []
        \<and> TrimSpace (takeWhile (\<lambda>c. c \<noteq> CHR '','') (TrimSpace (cols ! 1))) \<noteq> []
        \<and> CHR '','' \<notin> set (TrimSpace (cols ! 1))"
  then show "resultsList (rowFunc i cols st) =
            resultsList st @ [\<lparr>Postcode = TrimSpace (cols ! 0),
                                Suburb = TrimSpace (takeWhile (\<lambda>c. c \<noteq> CHR '','') (TrimSpace (cols ! 1))),
                                State = []\<rparr>]"
    by (simp add: rowFunc_unfold Let_def)
qed

theorem records_have_postcode_and_suburb_witness:
  "Postcode (hd (resultsList (Each [[''Postcode'', ''Suburb''], [''2000'', ''SYDNEY''],
        ['' '', ''SYDNEY, NSW''], [''2001'', '' , NSW'']] 0 rowFunc
        \<lparr>resultsList = [], dataContainerFound = False\<rparr>))) \<noteq> []
   \<and> Suburb (hd (resultsList (Each [[''Postcode'', ''Suburb''], [''2000'', ''SYDNEY''],
        ['' '', ''SYDNEY, NSW''], [''2001'', '' , NSW'']] 0 rowFunc
        \<lparr>resultsList = [], dataContainerFound = False\<rparr>))) \<noteq> []
   \<and> TrimSpace ([''2001'', '' , NSW''] ! 0) \<noteq> []
   \<and> TrimSpace (takeWhile (\<lambda>c. c \<noteq> CHR '','') (TrimSpace ([''2001'', '' , NSW''] ! 1))) = []
   \<and> resultsList (rowFunc 3 [''2001'', '' , NSW''] \<lparr>resultsList = [], dataContainerFound = False\<rparr>) = []
   \<and> resultsList (rowFunc 1 [''2000'', ''SYDNEY''] \<lparr>resultsList = [], dataContainerFound = False\<rparr>)
       = [\<lparr>Postcode = ''2000'', Suburb = ''SYDNEY'', State = []\<rparr>]"
proof -
  let ?rows = "[[''Postcode'', ''Suburb''], [''2000'', ''SYDNEY''],
        ['' '', ''SYDNEY, NSW''], [''2001'', '' , NSW'']]"
  let ?init = "\<lparr>resultsList = [], dataContainerFound = False\<rparr>"
  have mem: "hd (resultsList (Each ?rows 0 rowFunc ?init)) \<in> set (resultsList (Each ?rows 0 rowFunc ?init))"
    by code_simp
  have p: "TrimSpace ([''2001'', '' , NSW''] ! 0) = ''2001''" by code_simp
  have e: "TrimSpace (takeWhile (\<lambda>c. c \<noteq> CHR '','') (TrimSpace ([''2001'', '' , NSW''] ! 1))) = []"
    by code_simp
  have q: "TrimSpace ([''2000'', ''SYDNEY''] ! 0) = ''2000''"
    "TrimSpace ([''2000'', ''SYDNEY''] ! 1) = ''SYDNEY''"
    "TrimSpace (takeWhile (\<lambda>c. c \<noteq> CHR '','') ''SYDNEY'') = ''SYDNEY''"
    by code_simp+
  note main = records_have_postcode_and_suburb
  from main [of ?rows] mem
  have a: "Postcode (hd (resultsList (Each ?rows 0 rowFunc ?init))) \<noteq> []
      \<and> Suburb (hd (resultsList (Each ?rows 0 rowFunc ?init))) \<noteq> []"
    by blast
  from main [of "[]" "[''2001'', '' , NSW'']" 3 ?init] e
  have b: "resultsList (rowFunc 3 [''2001'', '' , NSW''] ?init) = []"
    by simp
  from main [of "[]" "[''2000'', ''SYDNEY'']" 1 ?init] q
  have c: "resultsList (rowFunc 1 [''2000'', ''SYDNEY''] ?init)
       = [\<lparr>Postcode = ''2000'', Suburb = ''SYDNEY'', State = []\<rparr>]"
    by simp
  from a b c p e show ?thesis by simp
qed

text \<open>
  Claim C4. When the query has no \<open>keyword\<close>, or its first value is the empty
  string, the handler answers 400 with the content type JSON and a body whose only field
  is \<open>error\<close>. The answer is the same in every world and nothing happens before it:
  no sleep, no log line and no request, so \<open>searchPostcodes\<close> did not run.
\<close>

theorem missing_keyword_is_bad_request:
  assumes "query ''keyword'' = None \<or> Get query ''keyword'' = []"
  shows \<open>postcodeHandler env newResponseWriter query =
      ([], \<lparr>Header = [''Content-Type'' \<mapsto> ''application/json''], wroteHeader = True,
            status = 400,
            body = ''{"error":"Missing 'keyword' parameter in the query string. Example: /search?keyword=sydney"}''
                   @ [CHR 0x0A]\<rparr>)
    \<and> Contains (body (snd (postcodeHandler env newResponseWriter query))) ''"error"''\<close>
proof -
  have empty: "Get query ''keyword'' = []"
    using assms by (auto simp: Get_def)
  have resp: \<open>postcodeHandler env newResponseWriter query =
      ([], \<lparr>Header = [''Content-Type'' \<mapsto> ''application/json''], wroteHeader = True,
            status = 400,
            body = ''{"error":"Missing 'keyword' parameter in the query string. Example: /search?keyword=sydney"}''
                   @ [CHR 0x0A]\<rparr>)\<close>
    using empty
    by (simp add: postcodeHandler_def Let_def newResponseWriter_def Header_Set_def Write_def
        WriteHeader_def StatusBadRequest_def Encode_map_missing_keyword)
  show ?thesis unfolding resp by (simp add: HasPrefix_def)
qed

theorem missing_keyword_is_bad_request_witness:
  \<open>(Map.empty :: Values) ''keyword'' = None
    \<and> status (snd (postcodeHandler (exampleWorld (examplePage [])) newResponseWriter Map.empty)) = 400
    \<and> fst (postcodeHandler (exampleWorld (examplePage [])) newResponseWriter Map.empty) = []
    \<and> Get [''keyword'' \<mapsto> [[]]] ''keyword'' = []
    \<and> status (snd (postcodeHandler (exampleWorld (examplePage [])) newResponseWriter
          [''keyword'' \<mapsto> [[]]])) = 400\<close>
proof -
  let ?env = "exampleWorld (examplePage [])"
  let ?q = "[''keyword'' \<mapsto> [[]]]"
  have g: "Get ?q ''keyword'' = []" by (simp add: Get_def)
  have h1: "(Map.empty :: Values) ''keyword'' = None \<or> Get Map.empty ''keyword'' = []" by simp
  have h2: "?q ''keyword'' = None \<or> Get ?q ''keyword'' = []" using g by (rule disjI2)
  have r1: "status (snd (postcodeHandler ?env newResponseWriter Map.empty)) = 400"
    "fst (postcodeHandler ?env newResponseWriter Map.empty) = []"
    unfolding conjunct1 [OF missing_keyword_is_bad_request [OF h1, of ?env]] by simp_all
  have r2: "status (snd (postcodeHandler ?env newResponseWriter ?q)) = 400"
    unfolding conjunct1 [OF missing_keyword_is_bad_request [OF h2, of ?env]] by simp
  from r1 r2 g show ?thesis by simp
qed

text \<open>
  The empty outcome, as text. When the page is fetched with status 200 and parsed, and
  its table gives no record (in particular when the selector finds no row at all),
  \<open>searchPostcodes\<close> returns the text that opens with the field \<open>message\<close> and
  holds the keyword as it was given, not the text of an error, and the handler answers
  500 with that text as body.
\<close>

theorem empty_table_is_empty_outcome:
  assumes "Get query ''keyword'' = keyword" and "keyword \<noteq> []"
    and "http_NewRequest env (targetUrl env keyword) = None"
    and "client_Do env (targetUrl env keyword) = Inr resp"
    and "StatusCode resp = StatusOK"
    and "Body resp = Inr rows"
    and "rows = [] \<or> resultsList (Each rows 0 rowFunc \<lparr>resultsList = [], dataContainerFound = False\<rparr>) = []"
  shows \<open>snd (searchPostcodes env keyword) =
      ''{"message": "No postcodes found for keyword '' @ [CHR 0x27] @ keyword @ [CHR 0x27]
        @ ''. Please verify the CSS selectors."}''
    \<and> HasPrefix (snd (searchPostcodes env keyword)) ''{"message": ''
    \<and> \<not> HasPrefix (snd (searchPostcodes env keyword)) ''{"error": ''
    \<and> status (snd (postcodeHandler env newResponseWriter query)) = 500
    \<and> body (snd (postcodeHandler env newResponseWriter query)) = snd (searchPostcodes env keyword)\<close>
proof -
  have none: "resultsList (Each rows 0 rowFunc \<lparr>resultsList = [], dataContainerFound = False\<rparr>) = []"
    using assms(7) by auto
  have out: \<open>snd (searchPostcodes env keyword) =
      ''{"message": "No postcodes found for keyword '' @ [CHR 0x27] @ keyword @ [CHR 0x27]
        @ ''. Please verify the CSS selectors."}''\<close>
    using searchPostcodes_table [OF assms(2-6)] none by (simp add: Let_def)
  have msg: \<open>Contains (snd (searchPostcodes env keyword)) ''"message"''\<close>
    unfolding out by (rule Contains_message)
  have resp: "status (snd (postcodeHandler env newResponseWriter query)) = 500"
    "body (snd (postcodeHandler env newResponseWriter query)) = snd (searchPostcodes env keyword)"
    using msg by (simp_all add: handler_response [OF assms(1,2)])
  have pre: \<open>HasPrefix (snd (searchPostcodes env keyword)) ''{"message": ''\<close>
    \<open>\<not> HasPrefix (snd (searchPostcodes env keyword)) ''{"error": ''\<close>
    unfolding out by (simp_all add: HasPrefix_def)
  from out pre resp show ?thesis by blast
qed

theorem empty_table_is_empty_outcome_witness:
  \<open>Get [''keyword'' \<mapsto> [''Atlantis'']] ''keyword'' = ''Atlantis'' \<and> ''Atlantis'' \<noteq> []
    \<and> snd (searchPostcodes (exampleWorld (examplePage [])) ''Atlantis'') =
        ''{"message": "No postcodes found for keyword 'Atlantis'. Please verify the CSS selectors."}''
    \<and> status (snd (postcodeHandler (exampleWorld (examplePage [])) newResponseWriter
          [''keyword'' \<mapsto> [''Atlantis'']])) = 500
    \<and> body (snd (postcodeHandler (exampleWorld (examplePage [])) newResponseWriter
          [''keyword'' \<mapsto> [''Atlantis'']])) =
        ''{"message": "No postcodes found for keyword 'Atlantis'. Please verify the CSS selectors."}''\<close>
proof -
  let ?q = "[''keyword'' \<mapsto> [''Atlantis'']]"
  let ?resp = "examplePage []"
  let ?env = "exampleWorld ?resp"
  have h1: "Get ?q ''keyword'' = ''Atlantis''" by (simp add: Get_def)
  have h2: "''Atlantis'' \<noteq> []" by simp
  have h3: "http_NewRequest ?env (targetUrl ?env ''Atlantis'') = None"
    and h4: "client_Do ?env (targetUrl ?env ''Atlantis'') = Inr ?resp"
    by (simp_all add: exampleWorld_def)
  have h5: "StatusCode ?resp = StatusOK" and h6: "Body ?resp = Inr []"
    by (simp_all add: examplePage_def StatusOK_def)
  have h7: "[] = [] \<or> resultsList (Each [] 0 rowFunc \<lparr>resultsList = [], dataContainerFound = False\<rparr>) = []"
    by simp
  from empty_table_is_empty_outcome [OF h1 h2 h3 h4 h5 h6 h7] h1
  show ?thesis by simp
qed

text \<open>
  For a keyword without a double quote, a backslash or a control character, that text
  is one JSON object.
\<close>

lemma empty_outcome_is_JSON_for_plain_keyword:
  assumes "keyword \<noteq> []"
    and "http_NewRequest env (targetUrl env keyword) = None"
    and "client_Do env (targetUrl env keyword) = Inr resp"
    and "StatusCode resp = StatusOK"
    and "Body resp = Inr rows"
    and "resultsList (Each rows 0 rowFunc \<lparr>resultsList = [], dataContainerFound = False\<rparr>) = []"
    and "\<forall>c \<in> set keyword. 0x20 \<le> byte c \<and> c \<noteq> CHR 0x22 \<and> c \<noteq> CHR 0x5C"
  shows "Valid (snd (searchPostcodes env keyword))"
proof -
  have \<open>snd (searchPostcodes env keyword) =
      ''{"message": "No postcodes found for keyword '' @ [CHR 0x27] @ keyword @ [CHR 0x27]
        @ ''. Please verify the CSS selectors."}''\<close>
    using searchPostcodes_table [OF assms(1-5)] assms(6) by (simp add: Let_def)
  then show ?thesis using message_Valid_plain [OF assms(7)] by simp
qed

text \<open>
  Claim C5, at an input where it fails. The keyword is \<open>a\<close>, a double quote and
  \<open>b\<close>, and the table of the page has no row. The handler passes the keyword on,
  \<open>searchPostcodes\<close> pastes it unescaped between the quotes of the message, and the
  text it returns is not JSON: the string ends at the quote of the keyword and a
  \<open>b\<close> follows it. The handler writes that text with status 500. The other bodies of
  the program are written by encoding/json and are JSON: the body of the 400 answer, and
  the array of a record whose postcode is that same text.
\<close>

theorem empty_outcome_with_quote_is_not_JSON:
  \<open>snd (searchPostcodes (exampleWorld (examplePage [])) ''a"b'')
     = ''{"message": "No postcodes found for keyword 'a"b'. Please verify the CSS selectors."}''
   \<and> \<not> Valid (snd (searchPostcodes (exampleWorld (examplePage [])) ''a"b''))
   \<and> body (snd (postcodeHandler (exampleWorld (examplePage [])) newResponseWriter
         [''keyword'' \<mapsto> [''a"b'']]))
     = snd (searchPostcodes (exampleWorld (examplePage [])) ''a"b'')
   \<and> status (snd (postcodeHandler (exampleWorld (examplePage [])) newResponseWriter
         [''keyword'' \<mapsto> [''a"b'']])) = 500
   \<and> Valid (body (snd (postcodeHandler (exampleWorld (examplePage [])) newResponseWriter
         Map.empty)))
   \<and> Inr (snd (searchPostcodes
         (exampleWorld (examplePage [[''Postcode'', ''Suburb''], [''a"b'', ''SYDNEY, NSW'']]))
         ''a"b''))
     = MarshalIndent [\<lparr>Postcode = ''a"b'', Suburb = ''SYDNEY'', State = ''NSW''\<rparr>] [] ''    ''
   \<and> Valid (snd (searchPostcodes
         (exampleWorld (examplePage [[''Postcode'', ''Suburb''], [''a"b'', ''SYDNEY, NSW'']]))
         ''a"b''))\<close>
  by code_simp

text \<open>
  Claim C6. When the fetch returns a status other than 200, \<open>searchPostcodes\<close>
  returns the object with the field \<open>error\<close> whose text ends with the status code in
  decimal, after the log line and the request only. The rows are not looked at: the
  result is the same whatever the body of the response is. The handler answers 500 with
  that text as body.
\<close>

theorem non_200_is_failure:
  assumes "Get query ''keyword'' = keyword" and "keyword \<noteq> []"
    and "http_NewRequest env (targetUrl env keyword) = None"
    and "client_Do env (targetUrl env keyword) = Inr resp"
    and "StatusCode resp \<noteq> StatusOK"
  shows \<open>searchPostcodes env keyword =
      ([Log (''Scraping target: '' @ targetUrl env keyword), HttpGet (targetUrl env keyword)],
       ''{"error": "Received non-OK HTTP status: '' @ Itoa (StatusCode resp) @ ''"}'')
    \<and> searchPostcodes
         (env\<lparr>client_Do := (client_Do env)(targetUrl env keyword := Inr (resp\<lparr>Body := b\<rparr>))\<rparr>)
         keyword
       = searchPostcodes env keyword
    \<and> status (snd (postcodeHandler env newResponseWriter query)) = 500
    \<and> body (snd (postcodeHandler env newResponseWriter query)) =
       ''{"error": "Received non-OK HTTP status: '' @ Itoa (StatusCode resp) @ ''"}''\<close>
proof -
  let ?url = "targetUrl env keyword"
  let ?env' = "env\<lparr>client_Do := (client_Do env)(?url := Inr (resp\<lparr>Body := b\<rparr>))\<rparr>"
  have out: \<open>searchPostcodes env keyword =
      ([Log (''Scraping target: '' @ ?url), HttpGet ?url],
       ''{"error": "Received non-OK HTTP status: '' @ Itoa (StatusCode resp) @ ''"}'')\<close>
    using assms(2-5) by (simp add: searchPostcodes_def Let_def)
  have url': "targetUrl ?env' keyword = ?url" by (simp add: targetUrl_def)
  have out': \<open>searchPostcodes ?env' keyword =
      ([Log (''Scraping target: '' @ ?url), HttpGet ?url],
       ''{"error": "Received non-OK HTTP status: '' @ Itoa (StatusCode resp) @ ''"}'')\<close>
    using assms(2,3,5) by (simp add: searchPostcodes_def Let_def url')
  have err: \<open>Contains (snd (searchPostcodes env keyword)) ''"error"''\<close>
    unfolding out by (simp add: HasPrefix_def)
  have resp: "status (snd (postcodeHandler env newResponseWriter query)) = 500"
    "body (snd (postcodeHandler env newResponseWriter query)) = snd (searchPostcodes env keyword)"
    using err by (simp_all add: handler_response [OF assms(1,2)])
  show ?thesis using out out' resp by simp
qed

theorem non_200_is_failure_witness:
  \<open>Get [''keyword'' \<mapsto> [''sydney'']] ''keyword'' = ''sydney'' \<and> ''sydney'' \<noteq> []
    \<and> StatusCode \<lparr>StatusCode = 404, Body = Inr [[''Postcode'', ''Suburb''], [''2000'', ''SYDNEY, NSW'']]\<rparr> \<noteq> StatusOK
    \<and> snd (searchPostcodes
          (exampleWorld \<lparr>StatusCode = 404, Body = Inr [[''Postcode'', ''Suburb''], [''2000'', ''SYDNEY, NSW'']]\<rparr>)
          ''sydney'') = ''{"error": "Received non-OK HTTP status: 404"}''
    \<and> status (snd (postcodeHandler
          (exampleWorld \<lparr>StatusCode = 404, Body = Inr [[''Postcode'', ''Suburb''], [''2000'', ''SYDNEY, NSW'']]\<rparr>)
          newResponseWriter [''keyword'' \<mapsto> [''sydney'']])) = 500\<close>
proof -
  let ?q = "[''keyword'' \<mapsto> [''sydney'']]"
  let ?resp = "\<lparr>StatusCode = 404, Body = Inr [[''Postcode'', ''Suburb''], [''2000'', ''SYDNEY, NSW'']]\<rparr>"
  let ?env = "exampleWorld ?resp"
  have h1: "Get ?q ''keyword'' = ''sydney''" by (simp add: Get_def)
  have h2: "''sydney'' \<noteq> []" by simp
  have h3: "http_NewRequest ?env (targetUrl ?env ''sydney'') = None"
    and h4: "client_Do ?env (targetUrl ?env ''sydney'') = Inr ?resp"
    by (simp_all add: exampleWorld_def)
  have h5: "StatusCode ?resp \<noteq> StatusOK" by (simp add: StatusOK_def)
  have code: "Itoa 404 = ''404''" by code_simp
  from non_200_is_failure [OF h1 h2 h3 h4 h5] h1 h5 code
  show ?thesis by simp
qed

text \<open>
  Claim C10. When the page is fetched with status 200 and parsed, and the scan collects
  no record, the string that \<open>searchPostcodes\<close> returns is the fixed text around the
  keyword exactly as it was given: not trimmed, not lowered and not escaped.
\<close>

theorem empty_message_holds_raw_keyword:
  assumes "keyword \<noteq> []"
    and "http_NewRequest env (targetUrl env keyword) = None"
    and "client_Do env (targetUrl env keyword) = Inr resp"
    and "StatusCode resp = StatusOK"
    and "Body resp = Inr rows"
    and "length (resultsList (Each rows 0 rowFunc \<lparr>resultsList = [], dataContainerFound = False\<rparr>)) = 0"
  shows \<open>snd (searchPostcodes env keyword) =
      ''{"message": "No postcodes found for keyword '' @ [CHR 0x27] @ keyword @ [CHR 0x27]
        @ ''. Please verify the CSS selectors."}''\<close>
  using searchPostcodes_table [OF assms(1-5)] assms(6) by (simp add: Let_def)

theorem empty_message_holds_raw_keyword_witness:
  \<open>'' North "SYDNEY" '' \<noteq> []
    \<and> snd (searchPostcodes (exampleWorld (examplePage [[''Postcode'', ''Suburb''], [''2000'']]))
          '' North "SYDNEY" '') =
        ''{"message": "No postcodes found for keyword ' North "SYDNEY" '. Please verify the CSS selectors."}''\<close>
proof -
  let ?kw = \<open>'' North "SYDNEY" ''\<close>
  let ?rows = "[[''Postcode'', ''Suburb''], [''2000'']]"
  let ?resp = "examplePage ?rows"
  let ?env = "exampleWorld ?resp"
  have h1: "?kw \<noteq> []" by simp
  have h2: "http_NewRequest ?env (targetUrl ?env ?kw) = None"
    and h3: "client_Do ?env (targetUrl ?env ?kw) = Inr ?resp"
    by (simp_all add: exampleWorld_def)
  have h4: "StatusCode ?resp = StatusOK" and h5: "Body ?resp = Inr ?rows"
    by (simp_all add: examplePage_def StatusOK_def)
  have h6: "length (resultsList (Each ?rows 0 rowFunc \<lparr>resultsList = [], dataContainerFound = False\<rparr>)) = 0"
    by code_simp
  from empty_message_holds_raw_keyword [OF h1 h2 h3 h4 h5 h6]
  show ?thesis by simp
qed

text \<open>
  Claim C1, at an input where it fails. The page is fetched with status 200 and its
  table has one row after the header, whose first cell is the text \<open>error\<close>. The
  extraction succeeds with one record, and its JSON holds that text between double
  quotes; the handler finds the quoted word in it and answers 500 with the array as
  body.
\<close>

theorem record_text_error_gives_500:
  \<open>Each [[''Postcode'', ''Suburb''], [''error'', ''SYDNEY, NSW'']] 0 rowFunc
       \<lparr>resultsList = [], dataContainerFound = False\<rparr>
     = \<lparr>resultsList = [\<lparr>Postcode = ''error'', Suburb = ''SYDNEY'', State = ''NSW''\<rparr>],
        dataContainerFound = True\<rparr>
   \<and> Inr (snd (searchPostcodes
         (exampleWorld (examplePage [[''Postcode'', ''Suburb''], [''error'', ''SYDNEY, NSW'']]))
         ''sydney''))
     = MarshalIndent [\<lparr>Postcode = ''error'', Suburb = ''SYDNEY'', State = ''NSW''\<rparr>] [] ''    ''
   \<and> Contains (snd (searchPostcodes
         (exampleWorld (examplePage [[''Postcode'', ''Suburb''], [''error'', ''SYDNEY, NSW'']]))
         ''sydney'')) ''"error"''
   \<and> body (snd (postcodeHandler
         (exampleWorld (examplePage [[''Postcode'', ''Suburb''], [''error'', ''SYDNEY, NSW'']]))
         newResponseWriter [''keyword'' \<mapsto> [''sydney'']]))
     = snd (searchPostcodes
         (exampleWorld (examplePage [[''Postcode'', ''Suburb''], [''error'', ''SYDNEY, NSW'']]))
         ''sydney'')
   \<and> status (snd (postcodeHandler
         (exampleWorld (examplePage [[''Postcode'', ''Suburb''], [''error'', ''SYDNEY, NSW'']]))
         newResponseWriter [''keyword'' \<mapsto> [''sydney'']])) = 500\<close>
  by code_simp

text \<open>
  Claim C9. A keyword that is not empty and consists of white space only (every code
  point of it is a Unicode space) passes both checks, which compare the keyword as it
  was given with the empty string: the handler sleeps and calls \<open>searchPostcodes\<close>
  instead of answering 400, and \<open>searchPostcodes\<close> logs the target and goes on
  instead of returning its "Keyword cannot be empty" error. Trimming leaves nothing of
  the keyword, so the target URL is the base URL alone.
\<close>

theorem whitespace_keyword_is_searched:
  assumes "Get query ''keyword'' = keyword" and "keyword \<noteq> []"
    and "list_all IsSpace (runes keyword)"
  shows \<open>ToLower (unicode_ToLower env) (TrimSpace keyword) = []
    \<and> targetUrl env keyword = BASE_URL
    \<and> postcodeHandler env newResponseWriter query =
        (Sleep 500 # fst (searchPostcodes env keyword),
         snd (postcodeHandler env newResponseWriter query))
    \<and> status (snd (postcodeHandler env newResponseWriter query)) \<noteq> 400
    \<and> body (snd (postcodeHandler env newResponseWriter query)) = snd (searchPostcodes env keyword)
    \<and> take 1 (fst (searchPostcodes env keyword))
        = [Log ''Scraping target: https://auspost.com.au/postcode/'']
    \<and> snd (searchPostcodes env keyword) \<noteq> ''{"error": "Keyword cannot be empty."}''\<close>
proof -
  have trim: "TrimSpace keyword = []"
    using assms(3) by (rule TrimSpace_all_space)
  then have low: "ToLower (unicode_ToLower env) (TrimSpace keyword) = []"
    by (simp add: ToLower_Nil)
  then have url: "targetUrl env keyword = BASE_URL"
    by (simp add: targetUrl_def)
  have ev: "postcodeHandler env newResponseWriter query =
        (Sleep 500 # fst (searchPostcodes env keyword),
         snd (postcodeHandler env newResponseWriter query))"
    using assms(1,2) by (simp add: postcodeHandler_def Let_def split: prod.splits)
  have st: "status (snd (postcodeHandler env newResponseWriter query)) \<noteq> 400"
    "body (snd (postcodeHandler env newResponseWriter query)) = snd (searchPostcodes env keyword)"
    by (simp_all add: handler_response [OF assms(1,2)])
  have first: \<open>take 1 (fst (searchPostcodes env keyword))
        = [Log ''Scraping target: https://auspost.com.au/postcode/'']\<close>
    using searchPostcodes_first_event [OF assms(2), of env] url by (simp add: BASE_URL_def)
  have out: \<open>snd (searchPostcodes env keyword) \<noteq> ''{"error": "Keyword cannot be empty."}''\<close>
    using assms(2) by (rule searchPostcodes_not_rejected)
  from low url ev st first out show ?thesis by blast
qed

theorem whitespace_keyword_is_searched_witness:
  \<open>Get [''keyword'' \<mapsto> [[CHR '' '', CHR 0x09, CHR 0xC2, CHR 0xA0]]] ''keyword''
      = [CHR '' '', CHR 0x09, CHR 0xC2, CHR 0xA0]
    \<and> [CHR '' '', CHR 0x09, CHR 0xC2, CHR 0xA0] \<noteq> []
    \<and> list_all IsSpace (runes [CHR '' '', CHR 0x09, CHR 0xC2, CHR 0xA0])
    \<and> targetUrl (exampleWorld (examplePage [])) [CHR '' '', CHR 0x09, CHR 0xC2, CHR 0xA0]
      = ''https://auspost.com.au/postcode/''
    \<and> status (snd (postcodeHandler (exampleWorld (examplePage [])) newResponseWriter
          [''keyword'' \<mapsto> [[CHR '' '', CHR 0x09, CHR 0xC2, CHR 0xA0]]])) \<noteq> 400\<close>
proof -
  let ?kw = "[CHR '' '', CHR 0x09, CHR 0xC2, CHR 0xA0]"
  let ?q = "[''keyword'' \<mapsto> [?kw]]"
  have h1: "Get ?q ''keyword'' = ?kw" by (simp add: Get_def)
  have h2: "?kw \<noteq> []" by simp
  have h3: "list_all IsSpace (runes ?kw)" by code_simp
  note main = whitespace_keyword_is_searched [OF h1 h2 h3, of "exampleWorld (examplePage [])"]
  from main have "targetUrl (exampleWorld (examplePage [])) ?kw = BASE_URL" by blast
  moreover from main
  have "status (snd (postcodeHandler (exampleWorld (examplePage [])) newResponseWriter ?q)) \<noteq> 400"
    by blast
  ultimately show ?thesis using h1 h2 h3 by (simp add: BASE_URL_def)
qed

text \<open>
  Claim C2, amended. For a row after the header with at least two cells, the postcode
  is the trimmed text of cell 0. The trimmed text of cell 1 is split at its commas: the
  suburb is the trimmed part before the first comma, and the state is the trimmed part
  between the first comma and the second one (up to the end of the text when there is no
  second comma). Without a comma the suburb is the whole trimmed text and the state is
  empty. The record is added when postcode and suburb are not empty.
\<close>

theorem row_record_fields:
  assumes "0 < i" and "2 \<le> length cols"
  shows "rowFunc i cols st =
      (let postcode = TrimSpace (cols ! 0);
           full = TrimSpace (cols ! 1);
           suburb = TrimSpace (takeWhile (\<lambda>c. c \<noteq> CHR '','') full);
           state = (if CHR '','' \<in> set full
                    then TrimSpace (takeWhile (\<lambda>c. c \<noteq> CHR '','')
                           (tl (dropWhile (\<lambda>c. c \<noteq> CHR '','') full)))
                    else []) in
       if postcode \<noteq> [] \<and> suburb \<noteq> [] then
         st\<lparr>dataContainerFound := True,
            resultsList := resultsList st
              @ [\<lparr>Postcode = postcode, Suburb = suburb, State = state\<rparr>]\<rparr>
       else st\<lparr>dataContainerFound := True\<rparr>)
    \<and> (CHR '','' \<notin> set (TrimSpace (cols ! 1)) \<longrightarrow>
         TrimSpace (takeWhile (\<lambda>c. c \<noteq> CHR '','') (TrimSpace (cols ! 1))) = TrimSpace (cols ! 1))"
proof
  show "rowFunc i cols st =
      (let postcode = TrimSpace (cols ! 0);
           full = TrimSpace (cols ! 1);
           suburb = TrimSpace (takeWhile (\<lambda>c. c \<noteq> CHR '','') full);
           state = (if CHR '','' \<in> set full
                    then TrimSpace (takeWhile (\<lambda>c. c \<noteq> CHR '','')
                           (tl (dropWhile (\<lambda>c. c \<noteq> CHR '','') full)))
                    else []) in
       if postcode \<noteq> [] \<and> suburb \<noteq> [] then
         st\<lparr>dataContainerFound := True,
            resultsList := resultsList st
              @ [\<lparr>Postcode = postcode, Suburb = suburb, State = state\<rparr>]\<rparr>
       else st\<lparr>dataContainerFound := True\<rparr>)"
    using assms by (rule rowFunc_unfold)
next
  show "CHR '','' \<notin> set (TrimSpace (cols ! 1)) \<longrightarrow>
         TrimSpace (takeWhile (\<lambda>c. c \<noteq> CHR '','') (TrimSpace (cols ! 1))) = TrimSpace (cols ! 1)"
  proof
    assume "CHR '','' \<notin> set (TrimSpace (cols ! 1))"
    then have tw: "takeWhile (\<lambda>c. c \<noteq> CHR '','') (TrimSpace (cols ! 1)) = TrimSpace (cols ! 1)"
      by (intro takeWhile_eq_all_conv [THEN iffD2]) auto
    show "TrimSpace (takeWhile (\<lambda>c. c \<noteq> CHR '','') (TrimSpace (cols ! 1))) = TrimSpace (cols ! 1)"
      unfolding tw by (rule TrimSpace_idem)
  qed
qed

theorem row_record_fields_witness:
  "(0::nat) < 1 \<and> 2 \<le> length [''2055'', ''NORTH SYDNEY, NSW'']
   \<and> rowFunc 1 [''2055'', ''NORTH SYDNEY, NSW''] \<lparr>resultsList = [], dataContainerFound = False\<rparr>
     = \<lparr>resultsList = [\<lparr>Postcode = ''2055'', Suburb = ''NORTH SYDNEY'', State = ''NSW''\<rparr>],
        dataContainerFound = True\<rparr>
   \<and> CHR '','' \<notin> set (TrimSpace ([''2000'', '' SYDNEY ''] ! 1))
   \<and> rowFunc 1 [''2000'', '' SYDNEY ''] \<lparr>resultsList = [], dataContainerFound = False\<rparr>
     = \<lparr>resultsList = [\<lparr>Postcode = ''2000'', Suburb = ''SYDNEY'', State = []\<rparr>],
        dataContainerFound = True\<rparr>"
proof -
  let ?init = "\<lparr>resultsList = [], dataContainerFound = False\<rparr>"
  let ?a = "[''2055'', ''NORTH SYDNEY, NSW'']" and ?b = "[''2000'', '' SYDNEY '']"
  have h1: "(0::nat) < 1" by simp
  have h2: "2 \<le> length ?a" and h3: "2 \<le> length ?b" by simp_all
  have a: "TrimSpace (?a ! 0) = ''2055''" "TrimSpace (?a ! 1) = ''NORTH SYDNEY, NSW''"
    "TrimSpace (takeWhile (\<lambda>c. c \<noteq> CHR '','') ''NORTH SYDNEY, NSW'') = ''NORTH SYDNEY''"
    "TrimSpace (takeWhile (\<lambda>c. c \<noteq> CHR '','')
        (tl (dropWhile (\<lambda>c. c \<noteq> CHR '','') ''NORTH SYDNEY, NSW''))) = ''NSW''"
    by code_simp+
  have b: "TrimSpace (?b ! 0) = ''2000''" "TrimSpace (?b ! 1) = ''SYDNEY''"
    by code_simp+
  have nc: "CHR '','' \<notin> set (TrimSpace (?b ! 1))" unfolding b by simp
  from row_record_fields [OF h1 h2, of ?init] a
  have ra: "rowFunc 1 ?a ?init
     = \<lparr>resultsList = [\<lparr>Postcode = ''2055'', Suburb = ''NORTH SYDNEY'', State = ''NSW''\<rparr>],
        dataContainerFound = True\<rparr>"
    by (simp add: Let_def)
  note fb = row_record_fields [OF h1 h3, of ?init]
  from fb nc have sub: "TrimSpace (takeWhile (\<lambda>c. c \<noteq> CHR '','') (TrimSpace (?b ! 1))) = TrimSpace (?b ! 1)"
    by blast
  from conjunct1 [OF fb] sub nc b
  have rb: "rowFunc 1 ?b ?init
     = \<lparr>resultsList = [\<lparr>Postcode = ''2000'', Suburb = ''SYDNEY'', State = []\<rparr>],
        dataContainerFound = True\<rparr>"
    by (simp add: Let_def)
  from h1 h2 ra nc rb show ?thesis by blast
qed

text \<open>
  Claim C2 as it was stated fails on a second cell with two commas: for the text
  \<open>SYDNEY, NSW, AU\<close> the part after the first comma is \<open>NSW, AU\<close>, and the
  state of the record is \<open>NSW\<close>.
\<close>

theorem state_is_second_part_counterexample:
  "State (hd (resultsList (rowFunc 1 [''2000'', ''SYDNEY, NSW, AU'']
      \<lparr>resultsList = [], dataContainerFound = False\<rparr>))) = ''NSW''
   \<and> take 6 ''SYDNEY, NSW, AU'' = ''SYDNEY''
   \<and> ''SYDNEY, NSW, AU'' ! 6 = CHR '',''
   \<and> TrimSpace (drop 7 ''SYDNEY, NSW, AU'') = ''NSW, AU''
   \<and> State (hd (resultsList (rowFunc 1 [''2000'', ''SYDNEY, NSW, AU'']
      \<lparr>resultsList = [], dataContainerFound = False\<rparr>))) \<noteq> TrimSpace (drop 7 ''SYDNEY, NSW, AU'')"
  by code_simp

end
